theory Spec2Isabelle
  imports Main "HOL-Library.Word" "HOL-Library.Sublist"
begin

section \<open>The gmail-transform worker\<close>

text \<open>
  A shallow embedding of \<^verbatim>\<open>services/gmail-transform/src\<close>: the sender filter and the
  notification handler of \<^verbatim>\<open>index.ts\<close>, the change resolver of \<^verbatim>\<open>gmail-client.ts\<close>,
  the delivery client of \<^verbatim>\<open>openclaw-client.ts\<close> and the payload builder of
  \<^verbatim>\<open>transformer.ts\<close>.

  The asynchronous functions are written in state-passing style over a \<open>World\<close>: the
  key-value namespace, the log of HTTP exchanges, the timers that were awaited and the
  console. What the outside answers is a parameter, the \<open>Runtime\<close>: one function per remote
  endpoint, from the number of exchanges made so far and the request to the response, so
  that the same request may be answered differently at different times. A \<^verbatim>\<open>throw\<close> is
  the \<open>Inl\<close> branch of a sum: the errors the source raises itself and, in the loop that
  fetches the messages, the rejections of the library calls it awaits there (a request that
  gets no answer, a body that is not JSON, a parser that rejects). The token, history and
  downstream endpoints and the key-value namespace always answer.
\<close>

subsection \<open>Strings\<close>

text \<open>
  A JavaScript string is a sequence of UTF-16 code units; \<^verbatim>\<open>length\<close> and
  \<^verbatim>\<open>substring\<close> count code units.
\<close>

type_synonym jsstring = "16 word list"

definition js :: "string \<Rightarrow> jsstring" where
  "js s = map of_char s"

definition isLineTerminator :: "16 word \<Rightarrow> bool" where
  "isLineTerminator c = (c \<in> set [0x000A, 0x000D, 0x2028, 0x2029])"

text \<open>The code units \<^verbatim>\<open>String.prototype.trim\<close> strips: white space and line terminators.\<close>

definition isWhiteSpace :: "16 word \<Rightarrow> bool" where
  "isWhiteSpace c = (isLineTerminator c \<or> c \<in> set [0x0009, 0x000B, 0x000C, 0x0020, 0x00A0,
      0x1680, 0x2000, 0x2001, 0x2002, 0x2003, 0x2004, 0x2005, 0x2006, 0x2007, 0x2008, 0x2009,
      0x200A, 0x202F, 0x205F, 0x3000, 0xFEFF])"

definition trim :: "jsstring \<Rightarrow> jsstring" where
  "trim s = rev (dropWhile isWhiteSpace (rev (dropWhile isWhiteSpace s)))"

text \<open>\<^verbatim>\<open>s.split(sep)\<close> for a separator of one code unit; the result is never empty.\<close>

fun split_on :: "'a \<Rightarrow> 'a list \<Rightarrow> 'a list list" where
  "split_on sep [] = [[]]"
| "split_on sep (c # cs) =
     (if c = sep then [] # split_on sep cs
      else (case split_on sep cs of p # ps \<Rightarrow> (c # p) # ps | [] \<Rightarrow> [[c]]))"

text \<open>
  The regular expression of \<open>isAllowedSender\<close>, an opening angle bracket, a lazy group of
  one or more dots, a closing angle bracket. \<open>lazy_group\<close> matches the group and the closing
  bracket at the head of its argument and returns the group: the dot takes any code unit
  but a line terminator, at least one, and the lazy quantifier stops at the first closing
  bracket after that. \<open>match_angle\<close> tries every start position from the left and returns
  the group of the first match.
\<close>

fun lazy_group :: "jsstring \<Rightarrow> jsstring option" where
  "lazy_group [] = None"
| "lazy_group [c] = None"
| "lazy_group (c # d # ds) =
     (if isLineTerminator c then None
      else if d = 0x003E then Some [c]
      else map_option (Cons c) (lazy_group (d # ds)))"

fun match_angle :: "jsstring \<Rightarrow> jsstring option" where
  "match_angle [] = None"
| "match_angle (c # cs) =
     (if c = 0x003C
      then (case lazy_group cs of Some g \<Rightarrow> Some g | None \<Rightarrow> match_angle cs)
      else match_angle cs)"

text \<open>
  Code points of a string, each as the code units that encode it: a high surrogate
  followed by a low surrogate is one code point, any other code unit stands alone.
  \<open>takeCodePoints\<close> is the truncation that never cuts a code point in two; the source does
  not use it, the specification of the snippet speaks of it.
\<close>

definition isHighSurrogate :: "16 word \<Rightarrow> bool" where
  "isHighSurrogate c = (0xD800 \<le> c \<and> c \<le> 0xDBFF)"

definition isLowSurrogate :: "16 word \<Rightarrow> bool" where
  "isLowSurrogate c = (0xDC00 \<le> c \<and> c \<le> 0xDFFF)"

fun codePoints :: "jsstring \<Rightarrow> jsstring list" where
  "codePoints [] = []"
| "codePoints [c] = [[c]]"
| "codePoints (c # d # cs) =
     (if isHighSurrogate c \<and> isLowSurrogate d then [c, d] # codePoints cs
      else [c] # codePoints (d # cs))"

definition takeCodePoints :: "nat \<Rightarrow> jsstring \<Rightarrow> jsstring" where
  "takeCodePoints n s = concat (take n (codePoints s))"

text \<open>Truthiness of an optional string: \<^verbatim>\<open>undefined\<close> and the empty string are falsy.\<close>

fun truthy :: "jsstring option \<Rightarrow> bool" where
  "truthy None = False"
| "truthy (Some s) = (s \<noteq> [])"

subsection \<open>Data (types.ts)\<close>

record GmailNotification =
  emailAddress :: jsstring
  historyId :: jsstring

text \<open>
  \<open>Env\<close> without its two bindings: the namespace \<^verbatim>\<open>GMAIL_STATE\<close> is a field of the world,
  the service \<^verbatim>\<open>DVB_CLAWBOT\<close> is the endpoint \<open>hooksAgent\<close> of the runtime.
\<close>

record Env =
  ALLOWED_SENDERS :: jsstring
  GMAIL_CLIENT_ID :: jsstring
  GMAIL_CLIENT_SECRET :: jsstring
  GMAIL_REFRESH_TOKEN :: jsstring
  OPENCLAW_HOOK_TOKEN :: jsstring

text \<open>
  A history record. Each entry of the four arrays wraps a message, of which only the
  identifier is read; the wrapper is left out. The provider's own \<^verbatim>\<open>historyId\<close> of the
  response is not read by the source and left out as well.
\<close>

record GmailMessage =
  msg_id :: jsstring
  msg_threadId :: jsstring

record HistoryRecord =
  record_id :: jsstring
  messagesAdded :: "GmailMessage list option"
  messagesDeleted :: "GmailMessage list option"
  labelsAdded :: "(GmailMessage \<times> jsstring list) list option"
  labelsRemoved :: "(GmailMessage \<times> jsstring list) list option"

record GmailHistoryResponse =
  history :: "HistoryRecord list option"
  nextPageToken :: "jsstring option"

text \<open>
  The answer of \<^verbatim>\<open>messages.get\<close> in raw format. \<open>providerSnippet\<close> is the \<^verbatim>\<open>snippet\<close> the
  provider sends along (\<open>GmailMessage.snippet\<close> in \<^verbatim>\<open>types.ts\<close>); the source never reads it.
\<close>

record FetchedMessage =
  fetched_id :: jsstring
  raw :: "jsstring option"
  fetched_threadId :: jsstring
  labelIds :: "jsstring list option"
  providerSnippet :: "jsstring option"

text \<open>
  What \<^verbatim>\<open>simpleParser\<close> returns, as far as the source reads it. An address object is the
  list \<^verbatim>\<open>value\<close> of its mailboxes, each the optional \<^verbatim>\<open>address\<close>; a header is absent, one
  address object or an array of them. \<open>pm_date\<close> is the date already in ISO format.
\<close>

type_synonym AddressObject = "jsstring option list"

datatype AddressHeader = NoHeader | OneObject AddressObject | ObjectArray "AddressObject list"

record ParsedMail =
  pm_text :: "jsstring option"
  pm_html :: "jsstring option"
  pm_from :: AddressHeader
  pm_to :: AddressHeader
  pm_subject :: "jsstring option"
  pm_date :: "jsstring option"

record ParsedEmail =
  messageId :: jsstring
  from' :: jsstring
  to' :: jsstring
  subject :: jsstring
  snippet :: jsstring
  body :: jsstring
  labels :: "jsstring list option"
  threadId :: jsstring
  internalDate :: "jsstring option"

record OpenClawWebhookPayload =
  message :: jsstring
  name :: jsstring
  channel :: jsstring
  wakeMode :: jsstring

subsection \<open>The outside: responses, requests, runtime and world\<close>

record 'a Response =
  status :: nat
  bodyText :: jsstring
  bodyJson :: 'a

definition ok :: "'a Response \<Rightarrow> bool" where
  "ok r = (200 \<le> status r \<and> status r \<le> 299)"

text \<open>
  A request names its endpoint and what the source puts into it: the token request its
  three credentials, the history and message requests the mailbox, the start cursor or the
  message identifier, and the bearer token, the hook request the bearer token and the
  payload.
\<close>

datatype Request =
    TokenRequest jsstring jsstring jsstring
  | HistoryRequest jsstring jsstring jsstring
  | MessageRequest jsstring jsstring jsstring
  | HookRequest jsstring OpenClawWebhookPayload

datatype Error =
    TokenRefreshFailed nat jsstring
  | HistoryListFailed nat jsstring
  | WebhookFailed nat jsstring
  | FailedAfterRetries
  | FetchRejected
  | BodyNotJson
  | ParserRejected

datatype LogLine =
    NewNotification jsstring jsstring
  | FirstNotification
  | NoNewMessages
  | ProcessingEmails nat
  | EmailFrom jsstring jsstring
  | FilteredOut
  | SentToOpenClaw
  | Summary nat nat
  | ErrorProcessing Error
  | TokenExpired
  | FoundMessages nat
  | FetchFailed jsstring nat
  | NoRawData jsstring
  | AttemptFailed nat Error

text \<open>
  The runtime: the three library functions the source calls and does not define
  (\<^verbatim>\<open>String.prototype.toLowerCase\<close>, \<^verbatim>\<open>simpleParser\<close> after the base64url decoding,
  \<^verbatim>\<open>htmlToText\<close> with the source's options), and the four endpoints. The first argument
  of an endpoint is the number of exchanges made before this one. The parser answers \<open>None\<close>
  when its promise rejects. The message endpoint answers \<open>None\<close> when the promise of
  \<^verbatim>\<open>fetch\<close> rejects, and the decoded body of its response is \<open>None\<close> when the body is not
  JSON.
\<close>

record Runtime =
  toLowerCase :: "jsstring \<Rightarrow> jsstring"
  simpleParser :: "jsstring \<Rightarrow> ParsedMail option"
  htmlToText :: "jsstring \<Rightarrow> jsstring"
  oauthToken :: "nat \<Rightarrow> jsstring \<Rightarrow> jsstring \<Rightarrow> jsstring \<Rightarrow> jsstring Response"
  historyList :: "nat \<Rightarrow> jsstring \<Rightarrow> jsstring \<Rightarrow> jsstring \<Rightarrow> GmailHistoryResponse Response"
  messagesGet :: "nat \<Rightarrow> jsstring \<Rightarrow> jsstring \<Rightarrow> jsstring \<Rightarrow> FetchedMessage option Response option"
  hooksAgent :: "nat \<Rightarrow> jsstring \<Rightarrow> OpenClawWebhookPayload \<Rightarrow> unit Response"

text \<open>
  The world: the key-value namespace, every exchange in order (the request and the status
  of its response, 0 for a request that got no answer), every delay awaited, every console
  line.
\<close>

record World =
  GMAIL_STATE :: "jsstring \<rightharpoonup> jsstring"
  exchanges :: "(Request \<times> nat) list"
  timers :: "nat list"
  console :: "LogLine list"

definition exchange :: "Request \<Rightarrow> nat \<Rightarrow> World \<Rightarrow> World" where
  "exchange rq st w = w\<lparr>exchanges := exchanges w @ [(rq, st)]\<rparr>"

definition consoleLog :: "LogLine \<Rightarrow> World \<Rightarrow> World" where
  "consoleLog l w = w\<lparr>console := console w @ [l]\<rparr>"

definition setTimeout :: "nat \<Rightarrow> World \<Rightarrow> World" where
  "setTimeout delayMs w = w\<lparr>timers := timers w @ [delayMs]\<rparr>"

definition kvPut :: "jsstring \<Rightarrow> jsstring \<Rightarrow> World \<Rightarrow> World" where
  "kvPut k v w = w\<lparr>GMAIL_STATE := (GMAIL_STATE w)(k \<mapsto> v)\<rparr>"

text \<open>What was handed to the downstream endpoint, and what it accepted.\<close>

definition hookAttempts :: "World \<Rightarrow> OpenClawWebhookPayload list" where
  "hookAttempts w =
     concat (map (\<lambda>(rq, st). case rq of HookRequest t p \<Rightarrow> [p] | _ \<Rightarrow> []) (exchanges w))"

definition delivered :: "World \<Rightarrow> OpenClawWebhookPayload list" where
  "delivered w =
     concat (map (\<lambda>(rq, st). case rq of
                      HookRequest t p \<Rightarrow> if 200 \<le> st \<and> st \<le> 299 then [p] else []
                    | _ \<Rightarrow> []) (exchanges w))"

subsection \<open>transformer.ts\<close>

definition transformToOpenClaw :: "ParsedEmail \<Rightarrow> OpenClawWebhookPayload" where
  "transformToOpenClaw email =
     \<lparr>message = js ''New email from '' @ from' email @ [0x000A] @ js ''Subject: '' @ subject email
                 @ [0x000A, 0x000A] @ (if body email \<noteq> [] then body email else snippet email),
      name = js ''gmail-notification'',
      channel = js ''last'',
      wakeMode = js ''now''\<rparr>"

subsection \<open>openclaw-client.ts\<close>

definition sendToOpenClaw ::
  "Runtime \<Rightarrow> OpenClawWebhookPayload \<Rightarrow> jsstring \<Rightarrow> World \<Rightarrow> (Error + unit Response) \<times> World" where
  "sendToOpenClaw rt payload token w =
     (let response = hooksAgent rt (length (exchanges w)) token payload;
          w1 = exchange (HookRequest token payload) (status response) w
      in if \<not> ok response
         then (Inl (WebhookFailed (status response) (bodyText response)), w1)
         else (Inr response, w1))"

definition backoff :: "nat \<Rightarrow> nat" where
  "backoff attempt = min (1000 * 2 ^ attempt) 10000"

text \<open>
  The loop of \<open>sendToOpenClawWithRetry\<close>, from \<open>attempt\<close> on, with the \<open>lastError\<close> so far.
  Inside the loop \<open>attempt < maxRetries\<close>, so \<open>maxRetries - 1\<close> does not truncate.
\<close>

function retryLoop ::
  "Runtime \<Rightarrow> OpenClawWebhookPayload \<Rightarrow> jsstring \<Rightarrow> nat \<Rightarrow> nat \<Rightarrow> Error option \<Rightarrow> World
     \<Rightarrow> (Error + unit Response) \<times> World" where
  "retryLoop rt payload token maxRetries attempt lastError w =
     (if attempt < maxRetries then
        (case sendToOpenClaw rt payload token w of
           (Inr response, w1) \<Rightarrow> (Inr response, w1)
         | (Inl error, w1) \<Rightarrow>
             (let w2 = consoleLog (AttemptFailed (attempt + 1) error) w1;
                  w3 = (if attempt < maxRetries - 1 then setTimeout (backoff attempt) w2 else w2)
              in retryLoop rt payload token maxRetries (attempt + 1) (Some error) w3))
      else (Inl (case lastError of Some e \<Rightarrow> e | None \<Rightarrow> FailedAfterRetries), w))"
  by pat_completeness auto
termination
  by (relation "measure (\<lambda>(rt, payload, token, maxRetries, attempt, lastError, w). maxRetries - attempt)")
     auto

declare retryLoop.simps [simp del]

definition sendToOpenClawWithRetry ::
  "Runtime \<Rightarrow> OpenClawWebhookPayload \<Rightarrow> jsstring \<Rightarrow> nat \<Rightarrow> World \<Rightarrow> (Error + unit Response) \<times> World" where
  "sendToOpenClawWithRetry rt payload token maxRetries w =
     retryLoop rt payload token maxRetries 0 None w"

text \<open>The default value of the parameter \<open>maxRetries\<close>, which the handler's call leaves out.\<close>

definition defaultMaxRetries :: nat where
  "defaultMaxRetries = 1"

subsection \<open>gmail-client.ts\<close>

definition refreshAccessToken ::
  "Runtime \<Rightarrow> jsstring \<Rightarrow> jsstring \<Rightarrow> jsstring \<Rightarrow> World \<Rightarrow> (Error + jsstring) \<times> World" where
  "refreshAccessToken rt clientId clientSecret refreshToken w =
     (let response = oauthToken rt (length (exchanges w)) clientId clientSecret refreshToken;
          w1 = exchange (TokenRequest clientId clientSecret refreshToken) (status response) w
      in if \<not> ok response
         then (Inl (TokenRefreshFailed (status response) (bodyText response)), w1)
         else (Inr (bodyJson response), w1))"

text \<open>
  The first part of \<open>fetchNewEmails\<close>: the access token, the history query, the single
  retry after a 401, and the check of the final response. It returns the token in use and
  the decoded history.
\<close>

definition queryHistory ::
  "Runtime \<Rightarrow> Env \<Rightarrow> jsstring \<Rightarrow> jsstring \<Rightarrow> World \<Rightarrow> (Error + jsstring \<times> GmailHistoryResponse) \<times> World" where
  "queryHistory rt env emailAddr startHistoryId w =
     (case refreshAccessToken rt (GMAIL_CLIENT_ID env) (GMAIL_CLIENT_SECRET env) (GMAIL_REFRESH_TOKEN env) w of
        (Inl e, w1) \<Rightarrow> (Inl e, w1)
      | (Inr accessToken, w1) \<Rightarrow>
          (let historyResponse = historyList rt (length (exchanges w1)) emailAddr startHistoryId accessToken;
               w2 = exchange (HistoryRequest emailAddr startHistoryId accessToken) (status historyResponse) w1
           in case (if status historyResponse = 401 then
                      (case refreshAccessToken rt (GMAIL_CLIENT_ID env) (GMAIL_CLIENT_SECRET env)
                              (GMAIL_REFRESH_TOKEN env) (consoleLog TokenExpired w2) of
                         (Inl e, w3) \<Rightarrow> (Inl e, w3)
                       | (Inr accessToken2, w3) \<Rightarrow>
                           (let historyResponse2 =
                                  historyList rt (length (exchanges w3)) emailAddr startHistoryId accessToken2
                            in (Inr (accessToken2, historyResponse2),
                                exchange (HistoryRequest emailAddr startHistoryId accessToken2)
                                  (status historyResponse2) w3)))
                    else (Inr (accessToken, historyResponse), w2)) of
                (Inl e, w4) \<Rightarrow> (Inl e, w4)
              | (Inr (accessToken', historyResponse'), w4) \<Rightarrow>
                  if \<not> ok historyResponse'
                  then (Inl (HistoryListFailed (status historyResponse') (bodyText historyResponse')), w4)
                  else (Inr (accessToken', bodyJson historyResponse'), w4)))"

text \<open>
  The two nested loops that collect the identifiers: the inner loop pushes the identifier
  of every entry of one \<open>messagesAdded\<close> array, the outer loop visits the history records.
\<close>

fun pushAdded :: "GmailMessage list \<Rightarrow> jsstring list \<Rightarrow> jsstring list" where
  "pushAdded [] messageIds = messageIds"
| "pushAdded (added # rest) messageIds = pushAdded rest (messageIds @ [msg_id added])"

fun collectLoop :: "HistoryRecord list \<Rightarrow> jsstring list \<Rightarrow> jsstring list" where
  "collectLoop [] messageIds = messageIds"
| "collectLoop (historyItem # items) messageIds =
     (case messagesAdded historyItem of
        None \<Rightarrow> collectLoop items messageIds
      | Some added \<Rightarrow> collectLoop items (pushAdded added messageIds))"

definition collectMessageIds :: "GmailHistoryResponse \<Rightarrow> jsstring list" where
  "collectMessageIds historyData =
     (case history historyData of
        None \<Rightarrow> []
      | Some items \<Rightarrow> collectLoop items [])"

fun firstAddress :: "AddressObject \<Rightarrow> jsstring" where
  "firstAddress [] = []"
| "firstAddress (None # _) = []"
| "firstAddress (Some a # _) = a"

fun getAddress :: "AddressHeader \<Rightarrow> jsstring" where
  "getAddress NoHeader = []"
| "getAddress (ObjectArray []) = []"
| "getAddress (ObjectArray (obj # _)) = firstAddress obj"
| "getAddress (OneObject obj) = firstAddress obj"

text \<open>
  The body of the fetch loop after the two checks: parse the raw message, choose the body,
  build the record. \<open>rawData\<close> is the raw content that was found present. A parser that
  rejects raises.
\<close>

definition parseMessage :: "Runtime \<Rightarrow> FetchedMessage \<Rightarrow> jsstring \<Rightarrow> Error + ParsedEmail" where
  "parseMessage rt msg rawData =
     (case simpleParser rt rawData of
        None \<Rightarrow> Inl ParserRejected
      | Some parsed \<Rightarrow>
          (let bodyStr = (if truthy (pm_text parsed) then (case pm_text parsed of Some t \<Rightarrow> t | None \<Rightarrow> [])
                          else if truthy (pm_html parsed)
                            then htmlToText rt (case pm_html parsed of Some h \<Rightarrow> h | None \<Rightarrow> [])
                            else [])
           in Inr \<lparr>messageId = fetched_id msg,
                   from' = getAddress (pm_from parsed),
                   to' = getAddress (pm_to parsed),
                   subject = (if truthy (pm_subject parsed)
                              then (case pm_subject parsed of Some s \<Rightarrow> s | None \<Rightarrow> []) else []),
                   snippet = take 200 bodyStr,
                   body = bodyStr,
                   labels = labelIds msg,
                   threadId = fetched_threadId msg,
                   internalDate = pm_date parsed\<rparr>))"

text \<open>
  The fetch loop over the identifiers; a result lists the records pushed, in order. The
  loop has no handler of its own: a request without answer, a success body that is not JSON
  and a parser that rejects leave it with an error, and the records pushed so far are lost.
\<close>

fun fetchMessages ::
  "Runtime \<Rightarrow> jsstring \<Rightarrow> jsstring \<Rightarrow> jsstring list \<Rightarrow> World \<Rightarrow> (Error + ParsedEmail list) \<times> World" where
  "fetchMessages rt emailAddr accessToken [] w = (Inr [], w)"
| "fetchMessages rt emailAddr accessToken (mid # mids) w =
     (case messagesGet rt (length (exchanges w)) emailAddr mid accessToken of
        None \<Rightarrow> (Inl FetchRejected, exchange (MessageRequest emailAddr mid accessToken) 0 w)
      | Some messageResponse \<Rightarrow>
          (let w1 = exchange (MessageRequest emailAddr mid accessToken) (status messageResponse) w
           in if \<not> ok messageResponse then
                fetchMessages rt emailAddr accessToken mids
                  (consoleLog (FetchFailed mid (status messageResponse)) w1)
              else
                (case bodyJson messageResponse of
                   None \<Rightarrow> (Inl BodyNotJson, w1)
                 | Some fetchedMessage \<Rightarrow>
                     (case raw fetchedMessage of
                        None \<Rightarrow> fetchMessages rt emailAddr accessToken mids (consoleLog (NoRawData mid) w1)
                      | Some rawData \<Rightarrow>
                          if rawData = [] then
                            fetchMessages rt emailAddr accessToken mids (consoleLog (NoRawData mid) w1)
                          else
                            (case parseMessage rt fetchedMessage rawData of
                               Inl e \<Rightarrow> (Inl e, w1)
                             | Inr email \<Rightarrow>
                                 (case fetchMessages rt emailAddr accessToken mids w1 of
                                    (Inl e, w2) \<Rightarrow> (Inl e, w2)
                                  | (Inr emails, w2) \<Rightarrow> (Inr (email # emails), w2)))))))"

definition fetchNewEmails ::
  "Runtime \<Rightarrow> Env \<Rightarrow> jsstring \<Rightarrow> jsstring \<Rightarrow> World \<Rightarrow> (Error + ParsedEmail list) \<times> World" where
  "fetchNewEmails rt env emailAddr startHistoryId w =
     (case queryHistory rt env emailAddr startHistoryId w of
        (Inl e, w1) \<Rightarrow> (Inl e, w1)
      | (Inr (accessToken, historyData), w1) \<Rightarrow>
          (let messageIds = collectMessageIds historyData
           in if messageIds = [] then (Inr [], w1)
              else fetchMessages rt emailAddr accessToken messageIds
                     (consoleLog (FoundMessages (length messageIds)) w1)))"

subsection \<open>index.ts\<close>

definition isAllowedSender :: "Runtime \<Rightarrow> jsstring \<Rightarrow> jsstring \<Rightarrow> bool" where
  "isAllowedSender rt fromAddress allowedSenders =
     (if allowedSenders = [] \<or> trim allowedSenders = [] then True
      else
        (let emailMatch = (case match_angle fromAddress of Some g \<Rightarrow> g | None \<Rightarrow> fromAddress);
             email = toLowerCase rt (trim emailMatch);
             allowed = map (\<lambda>s. toLowerCase rt (trim s)) (split_on 0x002C allowedSenders)
         in email \<in> set allowed))"

definition cursorKey :: "jsstring \<Rightarrow> jsstring" where
  "cursorKey emailAddr = js ''last_history_'' @ emailAddr"

text \<open>
  The delivery loop of \<open>processNotification\<close> with its two counters. A delivery that raises
  leaves the loop: the source awaits \<open>sendToOpenClawWithRetry\<close> with no handler of its own
  around it.
\<close>

fun processEmails ::
  "Runtime \<Rightarrow> Env \<Rightarrow> ParsedEmail list \<Rightarrow> nat \<Rightarrow> nat \<Rightarrow> World \<Rightarrow> (Error + nat \<times> nat) \<times> World" where
  "processEmails rt env [] processedCount filteredCount w = (Inr (processedCount, filteredCount), w)"
| "processEmails rt env (email # emails) processedCount filteredCount w =
     (let w1 = consoleLog (EmailFrom (from' email) (subject email)) w
      in if \<not> isAllowedSender rt (from' email) (ALLOWED_SENDERS env) then
           processEmails rt env emails processedCount (filteredCount + 1) (consoleLog FilteredOut w1)
         else (case sendToOpenClawWithRetry rt (transformToOpenClaw email) (OPENCLAW_HOOK_TOKEN env)
                      defaultMaxRetries w1 of
                 (Inl e, w2) \<Rightarrow> (Inl e, w2)
               | (Inr response, w2) \<Rightarrow>
                   processEmails rt env emails (processedCount + 1) filteredCount
                     (consoleLog SentToOpenClaw w2)))"

text \<open>
  The handler. It returns no value and raises nothing: the \<^verbatim>\<open>catch\<close> around its body logs
  the error and returns.
\<close>

definition processNotification :: "Runtime \<Rightarrow> Env \<Rightarrow> GmailNotification \<Rightarrow> World \<Rightarrow> World" where
  "processNotification rt env notification w =
     (let w0 = consoleLog (NewNotification (emailAddress notification) (historyId notification)) w;
          lastHistoryId = GMAIL_STATE w0 (cursorKey (emailAddress notification))
      in if \<not> truthy lastHistoryId then
           kvPut (cursorKey (emailAddress notification)) (historyId notification)
             (consoleLog FirstNotification w0)
         else
           (case fetchNewEmails rt env (emailAddress notification)
                   (case lastHistoryId of Some c \<Rightarrow> c | None \<Rightarrow> []) w0 of
              (Inl e, w1) \<Rightarrow> consoleLog (ErrorProcessing e) w1
            | (Inr emails, w1) \<Rightarrow>
                if emails = [] then
                  kvPut (cursorKey (emailAddress notification)) (historyId notification)
                    (consoleLog NoNewMessages w1)
                else
                  (case processEmails rt env emails 0 0 (consoleLog (ProcessingEmails (length emails)) w1) of
                     (Inl e, w2) \<Rightarrow> consoleLog (ErrorProcessing e) w2
                   | (Inr (processedCount, filteredCount), w2) \<Rightarrow>
                       kvPut (cursorKey (emailAddress notification)) (historyId notification)
                         (consoleLog (Summary processedCount filteredCount) w2))))"

subsection \<open>Notions of the specification\<close>

text \<open>
  What the answer to the request for one identifier, made as exchange number \<open>k\<close>, means for
  the fetch loop. \<open>stepError\<close> is the error with which it leaves the loop, if it does: no
  answer, a success body that is not JSON, or a raw content the parser rejects.
  \<open>stepMails\<close> is what it contributes to the result: the parsed message when the answer has
  a success status, a decoded body and a non-empty raw content that the parser accepts,
  and nothing otherwise.
\<close>

definition stepError :: "Runtime \<Rightarrow> jsstring \<Rightarrow> jsstring \<Rightarrow> nat \<Rightarrow> jsstring \<Rightarrow> Error option" where
  "stepError rt emailAddr accessToken k mid =
     (case messagesGet rt k emailAddr mid accessToken of
        None \<Rightarrow> Some FetchRejected
      | Some r \<Rightarrow>
          if \<not> ok r then None
          else (case bodyJson r of
                  None \<Rightarrow> Some BodyNotJson
                | Some msg \<Rightarrow>
                    (case raw msg of
                       None \<Rightarrow> None
                     | Some d \<Rightarrow>
                         if d = [] then None
                         else (case parseMessage rt msg d of Inl e \<Rightarrow> Some e | Inr email \<Rightarrow> None))))"

definition stepMails :: "Runtime \<Rightarrow> jsstring \<Rightarrow> jsstring \<Rightarrow> nat \<Rightarrow> jsstring \<Rightarrow> ParsedEmail list" where
  "stepMails rt emailAddr accessToken k mid =
     (case messagesGet rt k emailAddr mid accessToken of
        None \<Rightarrow> []
      | Some r \<Rightarrow>
          if \<not> ok r then []
          else (case bodyJson r of
                  None \<Rightarrow> []
                | Some msg \<Rightarrow>
                    (case raw msg of
                       None \<Rightarrow> []
                     | Some d \<Rightarrow>
                         if d = [] then []
                         else (case parseMessage rt msg d of Inl e \<Rightarrow> [] | Inr email \<Rightarrow> [email]))))"

text \<open>
  The world after the request for one identifier, made in world \<open>w\<close>: the exchange, and
  the console line of a skipped message.
\<close>

definition stepWorld :: "Runtime \<Rightarrow> jsstring \<Rightarrow> jsstring \<Rightarrow> jsstring \<Rightarrow> World \<Rightarrow> World" where
  "stepWorld rt emailAddr accessToken mid w =
     (case messagesGet rt (length (exchanges w)) emailAddr mid accessToken of
        None \<Rightarrow> exchange (MessageRequest emailAddr mid accessToken) 0 w
      | Some r \<Rightarrow>
          (let w1 = exchange (MessageRequest emailAddr mid accessToken) (status r) w
           in if \<not> ok r then consoleLog (FetchFailed mid (status r)) w1
              else (case bodyJson r of
                      None \<Rightarrow> w1
                    | Some msg \<Rightarrow> if truthy (raw msg) then w1 else consoleLog (NoRawData mid) w1)))"

text \<open>
  For a list of identifiers whose first request is exchange number \<open>k\<close>: \<open>answered\<close> says
  that no request leaves the loop with an error; \<open>requested\<close> lists the identifiers the loop
  requests, up to and including the first one that leaves it; \<open>fetched\<close> lists the records
  the answers contribute, in the order of the identifiers. All three are read off the
  answers of the runtime alone.
\<close>

fun answered :: "Runtime \<Rightarrow> jsstring \<Rightarrow> jsstring \<Rightarrow> nat \<Rightarrow> jsstring list \<Rightarrow> bool" where
  "answered rt emailAddr accessToken k [] = True"
| "answered rt emailAddr accessToken k (mid # mids) =
     (stepError rt emailAddr accessToken k mid = None \<and> answered rt emailAddr accessToken (Suc k) mids)"

fun requested :: "Runtime \<Rightarrow> jsstring \<Rightarrow> jsstring \<Rightarrow> nat \<Rightarrow> jsstring list \<Rightarrow> jsstring list" where
  "requested rt emailAddr accessToken k [] = []"
| "requested rt emailAddr accessToken k (mid # mids) =
     mid # (if stepError rt emailAddr accessToken k mid = None
            then requested rt emailAddr accessToken (Suc k) mids else [])"

fun fetched :: "Runtime \<Rightarrow> jsstring \<Rightarrow> jsstring \<Rightarrow> nat \<Rightarrow> jsstring list \<Rightarrow> ParsedEmail list" where
  "fetched rt emailAddr accessToken k [] = []"
| "fetched rt emailAddr accessToken k (mid # mids) =
     stepMails rt emailAddr accessToken k mid @ fetched rt emailAddr accessToken (Suc k) mids"



text \<open>
  The order of cursors. The source never compares two cursors; the provider's history
  identifiers are decimal numerals, and a cursor decreases when its number does.
\<close>

definition cursorValue :: "jsstring \<Rightarrow> nat" where
  "cursorValue s = foldl (\<lambda>acc c. 10 * acc + (unat c - 48)) 0 s"


text \<open>
  The messages of a list that pass the sender filter, and the answer of the downstream
  endpoint to the hand-over of the \<open>j\<close>-th message of the list \<open>mails\<close> when the first
  hand-over is exchange number \<open>k\<close>.
\<close>

definition passing :: "Runtime \<Rightarrow> Env \<Rightarrow> ParsedEmail list \<Rightarrow> ParsedEmail list" where
  "passing rt env emails = filter (\<lambda>e. isAllowedSender rt (from' e) (ALLOWED_SENDERS env)) emails"

definition deliveryAnswer :: "Runtime \<Rightarrow> Env \<Rightarrow> nat \<Rightarrow> ParsedEmail list \<Rightarrow> nat \<Rightarrow> unit Response" where
  "deliveryAnswer rt env k mails j =
     hooksAgent rt (k + j) (OPENCLAW_HOOK_TOKEN env) (transformToOpenClaw (mails ! j))"


text \<open>
  The answers of the runtime to the exchanges of the history query that starts in world
  \<open>w\<close>: the first token request, the first history query with the token it returned, the
  second token request and the second history query with the second token.
\<close>

definition firstToken :: "Runtime \<Rightarrow> Env \<Rightarrow> World \<Rightarrow> jsstring Response" where
  "firstToken rt env w =
     oauthToken rt (length (exchanges w)) (GMAIL_CLIENT_ID env) (GMAIL_CLIENT_SECRET env)
       (GMAIL_REFRESH_TOKEN env)"

definition firstHistory ::
  "Runtime \<Rightarrow> Env \<Rightarrow> jsstring \<Rightarrow> jsstring \<Rightarrow> World \<Rightarrow> GmailHistoryResponse Response" where
  "firstHistory rt env emailAddr startHistoryId w =
     historyList rt (length (exchanges w) + 1) emailAddr startHistoryId (bodyJson (firstToken rt env w))"

definition secondToken :: "Runtime \<Rightarrow> Env \<Rightarrow> World \<Rightarrow> jsstring Response" where
  "secondToken rt env w =
     oauthToken rt (length (exchanges w) + 2) (GMAIL_CLIENT_ID env) (GMAIL_CLIENT_SECRET env)
       (GMAIL_REFRESH_TOKEN env)"

definition secondHistory ::
  "Runtime \<Rightarrow> Env \<Rightarrow> jsstring \<Rightarrow> jsstring \<Rightarrow> World \<Rightarrow> GmailHistoryResponse Response" where
  "secondHistory rt env emailAddr startHistoryId w =
     historyList rt (length (exchanges w) + 3) emailAddr startHistoryId (bodyJson (secondToken rt env w))"

definition tokenRequest :: "Env \<Rightarrow> Request" where
  "tokenRequest env = TokenRequest (GMAIL_CLIENT_ID env) (GMAIL_CLIENT_SECRET env) (GMAIL_REFRESH_TOKEN env)"

text \<open>
  The regular expression of the sender filter, read as a relation. \<open>angleMatch s pre g\<close>:
  after the prefix \<open>pre\<close> of \<open>s\<close> come an opening angle bracket, the text \<open>g\<close> and a
  closing angle bracket, where \<open>g\<close> is not empty, holds no line terminator, and holds no
  closing bracket after its first code unit (the group is lazy: it ends at the first
  closing bracket it can end at). \<open>firstAngleMatch s g\<close>: \<open>g\<close> is the text of the leftmost
  such match of \<open>s\<close>.
\<close>

definition angleMatch :: "jsstring \<Rightarrow> jsstring \<Rightarrow> jsstring \<Rightarrow> bool" where
  "angleMatch s pre g \<longleftrightarrow>
     (\<exists>post. s = pre @ [0x003C] @ g @ [0x003E] @ post) \<and> g \<noteq> []
     \<and> (\<forall>c\<in>set g. \<not> isLineTerminator c) \<and> 0x003E \<notin> set (tl g)"


subsection \<open>Scenarios\<close>

text \<open>
  Concrete worlds and runtimes on which the theorems below are exercised. The scripted
  runtime lowers ASCII letters only, parses a raw message with the given parser, and
  answers each endpoint with the given status: the token and history endpoints and the
  hook by the number of the exchange, the message endpoint by the message identifier,
  where the status 0 stands for a request that gets no answer.
\<close>

definition emptyWorld :: World where
  "emptyWorld = \<lparr>GMAIL_STATE = Map.empty, exchanges = [], timers = [], console = []\<rparr>"

definition asciiLower :: "jsstring \<Rightarrow> jsstring" where
  "asciiLower s = map (\<lambda>c. if 0x0041 \<le> c \<and> c \<le> 0x005A then c + 0x0020 else c) s"

definition scriptedRuntime ::
  "(jsstring \<Rightarrow> ParsedMail) \<Rightarrow> (nat \<Rightarrow> nat) \<Rightarrow> (nat \<Rightarrow> nat) \<Rightarrow> GmailHistoryResponse
     \<Rightarrow> (jsstring \<Rightarrow> nat) \<Rightarrow> (jsstring \<Rightarrow> jsstring option) \<Rightarrow> (nat \<Rightarrow> nat) \<Rightarrow> Runtime" where
  "scriptedRuntime parser tokenStatus historyStatus feed messageStatus messageRaw hookStatus =
     \<lparr>toLowerCase = asciiLower,
      simpleParser = (\<lambda>rawData. Some (parser rawData)),
      htmlToText = (\<lambda>h. h),
      oauthToken = (\<lambda>i cid cs rt. \<lparr>status = tokenStatus i, bodyText = [],
                      bodyJson = js ''token'' @ [of_nat i + 0x0030]\<rparr>),
      historyList = (\<lambda>i addr start tok. \<lparr>status = historyStatus i, bodyText = [], bodyJson = feed\<rparr>),
      messagesGet = (\<lambda>i addr mid tok.
                       if messageStatus mid = 0 then None
                       else Some \<lparr>status = messageStatus mid, bodyText = [],
                                  bodyJson = Some \<lparr>fetched_id = mid, raw = messageRaw mid,
                                                    fetched_threadId = mid, labelIds = None,
                                                    providerSnippet = None\<rparr>\<rparr>),
      hooksAgent = (\<lambda>i tok p. \<lparr>status = hookStatus i, bodyText = [], bodyJson = ()\<rparr>)\<rparr>"

text \<open>A parser that takes the raw content for the plain text of a mail from the given sender.\<close>

definition plainParser :: "jsstring \<Rightarrow> jsstring \<Rightarrow> ParsedMail" where
  "plainParser sender rawData =
     \<lparr>pm_text = Some rawData, pm_html = None, pm_from = OneObject [Some sender], pm_to = NoHeader,
      pm_subject = Some (js ''Hello''), pm_date = None\<rparr>"

definition emptyFeed :: GmailHistoryResponse where
  "emptyFeed = \<lparr>history = None, nextPageToken = None\<rparr>"

text \<open>A runtime whose downstream endpoint answers every request with 503.\<close>

definition downRuntime :: Runtime where
  "downRuntime = scriptedRuntime (plainParser (js ''spam@y.com'')) (\<lambda>i. 200) (\<lambda>i. 200) emptyFeed
                   (\<lambda>m. 200) (\<lambda>m. Some m) (\<lambda>i. 503)"

definition pingPayload :: OpenClawWebhookPayload where
  "pingPayload = \<lparr>message = js ''ping'', name = js ''gmail-notification'', channel = js ''last'',
                  wakeMode = js ''now''\<rparr>"

text \<open>
  One mailbox, its notification with cursor 50, and worlds in which a cursor is stored for
  it. A feed with one history record that adds the given messages; the raw content of a
  message is its identifier, which the plain parser takes for the text of the mail.
\<close>

definition mailbox :: jsstring where
  "mailbox = js ''a@x.com''"

definition notification50 :: GmailNotification where
  "notification50 = \<lparr>emailAddress = mailbox, historyId = js ''50''\<rparr>"

definition storedWorld :: "jsstring \<Rightarrow> World" where
  "storedWorld c = \<lparr>GMAIL_STATE = [cursorKey mailbox \<mapsto> c], exchanges = [], timers = [], console = []\<rparr>"

definition openEnv :: Env where
  "openEnv = \<lparr>ALLOWED_SENDERS = [], GMAIL_CLIENT_ID = js ''id'', GMAIL_CLIENT_SECRET = js ''secret'',
              GMAIL_REFRESH_TOKEN = js ''refresh'', OPENCLAW_HOOK_TOKEN = js ''hook''\<rparr>"

definition feedOf :: "jsstring list \<Rightarrow> GmailHistoryResponse" where
  "feedOf ids =
     \<lparr>history = Some [\<lparr>record_id = js ''45'',
                        messagesAdded = Some (map (\<lambda>i. \<lparr>msg_id = i, msg_threadId = i\<rparr>) ids),
                        messagesDeleted = None, labelsAdded = None, labelsRemoved = None\<rparr>],
      nextPageToken = None\<rparr>"

text \<open>The record and the payload of a message of these scenarios.\<close>

definition mailOf :: "jsstring \<Rightarrow> ParsedEmail" where
  "mailOf mid = \<lparr>messageId = mid, from' = js ''spam@y.com'', to' = [], subject = js ''Hello'',
                 snippet = mid, body = mid, labels = None, threadId = mid, internalDate = None\<rparr>"


definition flakyRuntime :: Runtime where
  "flakyRuntime = scriptedRuntime (plainParser (js ''spam@y.com'')) (\<lambda>i. 200) (\<lambda>i. 200)
                    (feedOf [js ''m1'', js ''m2'', js ''m3'']) (\<lambda>m. 200) (\<lambda>m. Some m)
                    (\<lambda>i. if i = 6 then 503 else 200)"

text \<open>A runtime with three added messages where everything succeeds.\<close>

definition healthyRuntime :: Runtime where
  "healthyRuntime = scriptedRuntime (plainParser (js ''spam@y.com'')) (\<lambda>i. 200) (\<lambda>i. 200)
                      (feedOf [js ''m1'', js ''m2'', js ''m3'']) (\<lambda>m. 200) (\<lambda>m. Some m) (\<lambda>i. 200)"

text \<open>A runtime whose history query succeeds with no record at all.\<close>

definition quietRuntime :: Runtime where
  "quietRuntime = scriptedRuntime (plainParser (js ''spam@y.com'')) (\<lambda>i. 200) (\<lambda>i. 200) emptyFeed
                    (\<lambda>m. 200) (\<lambda>m. Some m) (\<lambda>i. 200)"

text \<open>
  A runtime whose history query is always answered 401, and one whose history query is
  always answered 500.
\<close>

definition expiredRuntime :: Runtime where
  "expiredRuntime = scriptedRuntime (plainParser (js ''spam@y.com'')) (\<lambda>i. 200) (\<lambda>i. 401)
                      (feedOf [js ''m1'']) (\<lambda>m. 200) (\<lambda>m. Some m) (\<lambda>i. 200)"

definition brokenRuntime :: Runtime where
  "brokenRuntime = scriptedRuntime (plainParser (js ''spam@y.com'')) (\<lambda>i. 200) (\<lambda>i. 500)
                     (feedOf [js ''m1'']) (\<lambda>m. 200) (\<lambda>m. Some m) (\<lambda>i. 200)"

text \<open>
  Three added messages of which the second cannot be fetched (404), with a downstream
  endpoint that accepts everything and with one that answers 503; and three added messages
  that are all fetched with status 200, the second without raw content.
\<close>

definition lossyRuntime :: Runtime where
  "lossyRuntime = scriptedRuntime (plainParser (js ''spam@y.com'')) (\<lambda>i. 200) (\<lambda>i. 200)
                    (feedOf [js ''m1'', js ''m2'', js ''m3''])
                    (\<lambda>m. if m = js ''m2'' then 404 else 200) (\<lambda>m. Some m) (\<lambda>i. 200)"

definition lossyDownRuntime :: Runtime where
  "lossyDownRuntime = scriptedRuntime (plainParser (js ''spam@y.com'')) (\<lambda>i. 200) (\<lambda>i. 200)
                        (feedOf [js ''m1'', js ''m2'', js ''m3''])
                        (\<lambda>m. if m = js ''m2'' then 404 else 200) (\<lambda>m. Some m) (\<lambda>i. 503)"

definition rawlessRuntime :: Runtime where
  "rawlessRuntime = scriptedRuntime (plainParser (js ''spam@y.com'')) (\<lambda>i. 200) (\<lambda>i. 200)
                      (feedOf [js ''m1'', js ''m2'', js ''m3''])
                      (\<lambda>m. 200) (\<lambda>m. if m = js ''m2'' then None else Some m) (\<lambda>i. 200)"

text \<open>
  A body of 199 letters followed by one character outside the basic plane (a surrogate
  pair): 200 code points in 201 code units. The runtime delivers it as the raw content of
  every message.
\<close>

definition astralBody :: jsstring where
  "astralBody = replicate 199 0x0061 @ [0xD83D, 0xDE00]"

definition astralRuntime :: Runtime where
  "astralRuntime = scriptedRuntime (plainParser (js ''spam@y.com'')) (\<lambda>i. 200) (\<lambda>i. 200)
                     (feedOf [js ''m1'']) (\<lambda>m. 200) (\<lambda>m. Some astralBody) (\<lambda>i. 200)"

text \<open>
  Three added messages of which the request for the second gets no answer, with a
  downstream endpoint that accepts everything.
\<close>

definition unansweredRuntime :: Runtime where
  "unansweredRuntime = scriptedRuntime (plainParser (js ''spam@y.com'')) (\<lambda>i. 200) (\<lambda>i. 200)
                         (feedOf [js ''m1'', js ''m2'', js ''m3''])
                         (\<lambda>m. if m = js ''m2'' then 0 else 200) (\<lambda>m. Some m) (\<lambda>i. 200)"





text \<open>
  A runtime whose first history query (exchange number 1) is answered 401 and whose second
  one succeeds with two added messages.
\<close>

definition refreshedRuntime :: Runtime where
  "refreshedRuntime = scriptedRuntime (plainParser (js ''spam@y.com'')) (\<lambda>i. 200)
                        (\<lambda>i. if i = 1 then 401 else 200)
                        (feedOf [js ''m1'', js ''m2'']) (\<lambda>m. 200) (\<lambda>m. Some m) (\<lambda>i. 200)"

section \<open>Effects of the primitive steps\<close>

lemma exchange_simps [simp]:
  "GMAIL_STATE (exchange rq st w) = GMAIL_STATE w"
  "exchanges (exchange rq st w) = exchanges w @ [(rq, st)]"
  "timers (exchange rq st w) = timers w"
  "console (exchange rq st w) = console w"
  by (simp_all add: exchange_def)

lemma consoleLog_simps [simp]:
  "GMAIL_STATE (consoleLog l w) = GMAIL_STATE w"
  "exchanges (consoleLog l w) = exchanges w"
  "timers (consoleLog l w) = timers w"
  "console (consoleLog l w) = console w @ [l]"
  by (simp_all add: consoleLog_def)

lemma setTimeout_simps [simp]:
  "GMAIL_STATE (setTimeout d w) = GMAIL_STATE w"
  "exchanges (setTimeout d w) = exchanges w"
  "timers (setTimeout d w) = timers w @ [d]"
  "console (setTimeout d w) = console w"
  by (simp_all add: setTimeout_def)

lemma kvPut_simps [simp]:
  "GMAIL_STATE (kvPut k v w) = (GMAIL_STATE w)(k \<mapsto> v)"
  "exchanges (kvPut k v w) = exchanges w"
  "timers (kvPut k v w) = timers w"
  "console (kvPut k v w) = console w"
  by (simp_all add: kvPut_def)

lemma delivered_simps [simp]:
  "delivered (consoleLog l w) = delivered w"
  "delivered (setTimeout d w) = delivered w"
  "delivered (kvPut k v w) = delivered w"
  "delivered (exchange rq st w) =
     delivered w @ (case rq of HookRequest t p \<Rightarrow> if 200 \<le> st \<and> st \<le> 299 then [p] else [] | _ \<Rightarrow> [])"
  by (simp_all add: delivered_def)

lemma hookAttempts_simps [simp]:
  "hookAttempts (consoleLog l w) = hookAttempts w"
  "hookAttempts (setTimeout d w) = hookAttempts w"
  "hookAttempts (kvPut k v w) = hookAttempts w"
  "hookAttempts (exchange rq st w) =
     hookAttempts w @ (case rq of HookRequest t p \<Rightarrow> [p] | _ \<Rightarrow> [])"
  by (simp_all add: hookAttempts_def)

lemma sendToOpenClaw_cases:
  assumes "sendToOpenClaw rt p t w = (res, w')"
  shows "w' = exchange (HookRequest t p) (status (hooksAgent rt (length (exchanges w)) t p)) w
       \<and> res = (if ok (hooksAgent rt (length (exchanges w)) t p)
                then Inr (hooksAgent rt (length (exchanges w)) t p)
                else Inl (WebhookFailed (status (hooksAgent rt (length (exchanges w)) t p))
                                        (bodyText (hooksAgent rt (length (exchanges w)) t p))))"
  using assms by (auto simp: sendToOpenClaw_def Let_def split: if_splits)

lemma retryLoop_spec:
  assumes "retryLoop rt p t m a le w = (res, w')"
  shows "\<exists>k. a + k \<le> max a m
      \<and> exchanges w' = exchanges w @ map (\<lambda>j. (HookRequest t p, status (hooksAgent rt (length (exchanges w) + j) t p))) [0..<k]
      \<and> timers w' = timers w @ map backoff [a..<a + k - 1]
      \<and> GMAIL_STATE w' = GMAIL_STATE w
      \<and> (\<forall>j<k - 1. \<not> ok (hooksAgent rt (length (exchanges w) + j) t p))
      \<and> (case res of
            Inr r \<Rightarrow> 0 < k \<and> r = hooksAgent rt (length (exchanges w) + (k - 1)) t p \<and> ok r
          | Inl e \<Rightarrow> a + k = max a m \<and>
              (if k = 0 then e = (case le of Some e' \<Rightarrow> e' | None \<Rightarrow> FailedAfterRetries)
               else \<not> ok (hooksAgent rt (length (exchanges w) + (k - 1)) t p) \<and>
                    e = WebhookFailed (status (hooksAgent rt (length (exchanges w) + (k - 1)) t p))
                                      (bodyText (hooksAgent rt (length (exchanges w) + (k - 1)) t p))))"
  using assms
proof (induction rt p t m a le w arbitrary: res w' rule: retryLoop.induct)
  case (1 rt p t m a le w)
  show ?case
  proof (cases "a < m")
    case False
    with "1.prems" show ?thesis
      by (intro exI[of _ 0]) (auto simp: retryLoop.simps[of rt p t m a le w])
  next
    case True
    let ?r = "hooksAgent rt (length (exchanges w)) t p"
    let ?w1 = "exchange (HookRequest t p) (status ?r) w"
    show ?thesis
    proof (cases "ok ?r")
      case ok: True
      with True "1.prems" have "res = Inr ?r" "w' = ?w1"
        by (auto simp: retryLoop.simps[of rt p t m a le w] sendToOpenClaw_def Let_def)
      with ok True show ?thesis
        by (intro exI[of _ 1]) auto
    next
      case nok: False
      let ?e = "WebhookFailed (status ?r) (bodyText ?r)"
      let ?w2 = "consoleLog (AttemptFailed (a + 1) ?e) ?w1"
      let ?w3 = "if a < m - 1 then setTimeout (backoff a) ?w2 else ?w2"
      have send: "sendToOpenClaw rt p t w = (Inl ?e, ?w1)"
        using nok by (simp add: sendToOpenClaw_def Let_def)
      have "retryLoop rt p t m a le w = retryLoop rt p t m (a + 1) (Some ?e) ?w3"
        by (subst retryLoop.simps) (simp add: True send Let_def)
      with "1.prems" have rec: "retryLoop rt p t m (a + 1) (Some ?e) ?w3 = (res, w')"
        by simp
      from "1.IH"[OF True send[symmetric] refl refl refl rec]
      obtain k where k: "a + 1 + k \<le> max (a + 1) m"
        "exchanges w' = exchanges ?w3 @ map (\<lambda>j. (HookRequest t p, status (hooksAgent rt (length (exchanges ?w3) + j) t p))) [0..<k]"
        "timers w' = timers ?w3 @ map backoff [a + 1..<a + 1 + k - 1]"
        "GMAIL_STATE w' = GMAIL_STATE ?w3"
        "\<forall>j<k - 1. \<not> ok (hooksAgent rt (length (exchanges ?w3) + j) t p)"
        "(case res of
            Inr r \<Rightarrow> 0 < k \<and> r = hooksAgent rt (length (exchanges ?w3) + (k - 1)) t p \<and> ok r
          | Inl e \<Rightarrow> a + 1 + k = max (a + 1) m \<and>
              (if k = 0 then e = (case Some ?e of Some e' \<Rightarrow> e' | None \<Rightarrow> FailedAfterRetries)
               else \<not> ok (hooksAgent rt (length (exchanges ?w3) + (k - 1)) t p) \<and>
                    e = WebhookFailed (status (hooksAgent rt (length (exchanges ?w3) + (k - 1)) t p))
                                      (bodyText (hooksAgent rt (length (exchanges ?w3) + (k - 1)) t p))))"
        by blast
      have len: "length (exchanges ?w3) = Suc (length (exchanges w))"
        and ex3: "exchanges ?w3 = exchanges w @ [(HookRequest t p, status ?r)]"
        and kv3: "GMAIL_STATE ?w3 = GMAIL_STATE w"
        and tm3: "timers ?w3 = timers w @ (if a < m - 1 then [backoff a] else [])"
        by simp_all
      have kpos: "a < m - 1 \<Longrightarrow> 0 < k"
        using k(1,6) by (cases res) (auto split: if_splits)
      have kzero: "\<not> a < m - 1 \<Longrightarrow> k = 0"
        using k(1) True by auto
      have c1: "a + Suc k \<le> max a m" using k(1) True by auto
      have c2: "exchanges w' = exchanges w @ map (\<lambda>j. (HookRequest t p, status (hooksAgent rt (length (exchanges w) + j) t p))) [0..<Suc k]"
        unfolding k(2) ex3 len by (simp only: map_upt_Suc) simp
      have c3: "timers w' = timers w @ map backoff [a..<a + Suc k - 1]"
      proof (cases "a < m - 1")
        case True
        with kpos have "0 < k" by simp
        then have "[a..<a + k] = a # [a + 1..<a + 1 + k - 1]"
          by (simp add: upt_conv_Cons)
        with True show ?thesis unfolding k(3) tm3 by simp
      next
        case False
        with kzero have "k = 0" by simp
        with False show ?thesis unfolding k(3) tm3 by simp
      qed
      have c4: "GMAIL_STATE w' = GMAIL_STATE w" using k(4) kv3 by simp
      have c5: "\<forall>j<Suc k - 1. \<not> ok (hooksAgent rt (length (exchanges w) + j) t p)"
      proof (intro allI impI)
        fix j assume j: "j < Suc k - 1"
        show "\<not> ok (hooksAgent rt (length (exchanges w) + j) t p)"
        proof (cases j)
          case 0 with nok show ?thesis by simp
        next
          case (Suc i)
          with j have "i < k - 1" by simp
          with k(5)[unfolded len] Suc show ?thesis by simp
        qed
      qed
      have c6: "(case res of
            Inr r \<Rightarrow> 0 < Suc k \<and> r = hooksAgent rt (length (exchanges w) + (Suc k - 1)) t p \<and> ok r
          | Inl e \<Rightarrow> a + Suc k = max a m \<and>
              (if Suc k = 0 then e = (case le of Some e' \<Rightarrow> e' | None \<Rightarrow> FailedAfterRetries)
               else \<not> ok (hooksAgent rt (length (exchanges w) + (Suc k - 1)) t p) \<and>
                    e = WebhookFailed (status (hooksAgent rt (length (exchanges w) + (Suc k - 1)) t p))
                                      (bodyText (hooksAgent rt (length (exchanges w) + (Suc k - 1)) t p))))"
      proof (cases res)
        case (Inr r)
        with k(6)[unfolded len] have kp: "0 < k"
          and r: "r = hooksAgent rt (Suc (length (exchanges w)) + (k - 1)) t p" and okr: "ok r"
          by auto
        from kp have eq: "Suc (length (exchanges w)) + (k - 1) = length (exchanges w) + k"
          by simp
        from okr have "ok (hooksAgent rt (length (exchanges w) + k) t p)"
          unfolding r eq .
        with Inr r eq show ?thesis by simp
      next
        case (Inl e)
        with k(6) have m: "a + 1 + k = max (a + 1) m" by simp
        show ?thesis
        proof (cases "k = 0")
          case True
          with k(6)[unfolded len] Inl nok \<open>a < m\<close> m show ?thesis by auto
        next
          case False
          then have eq: "Suc (length (exchanges w)) + (k - 1) = length (exchanges w) + k"
            by simp
          from k(6)[unfolded len eq] Inl False \<open>a < m\<close> m show ?thesis by auto
        qed
      qed
      show ?thesis
        using c1 c2 c3 c4 c5 c6 by (intro exI[of _ "Suc k"]) blast
    qed
  qed
qed

section \<open>The delivery client\<close>

lemma backoff_mono: "backoff a \<le> backoff (Suc a)"
  by (simp add: backoff_def)

lemma backoff_cap: "backoff a \<le> 10000"
  by (simp add: backoff_def)

lemma sendToOpenClawWithRetry_default:
  "sendToOpenClawWithRetry rt p t defaultMaxRetries w =
     (let r = hooksAgent rt (length (exchanges w)) t p;
          w1 = exchange (HookRequest t p) (status r) w
      in if ok r then (Inr r, w1)
         else (Inl (WebhookFailed (status r) (bodyText r)),
               consoleLog (AttemptFailed 1 (WebhookFailed (status r) (bodyText r))) w1))"
  by (simp add: sendToOpenClawWithRetry_def defaultMaxRetries_def sendToOpenClaw_def Let_def
        retryLoop.simps[of _ _ _ _ 0] retryLoop.simps[of _ _ _ _ "Suc 0"])

text \<open>
  C5. Retry bound and backoff. For every payload and every \<open>maxRetries\<close> of at least one,
  \<open>sendToOpenClawWithRetry\<close> makes \<open>k\<close> attempts with \<open>1 \<le> k \<le> maxRetries\<close>, all with the same
  token and payload; it waits \<open>backoff 0, \<dots>, backoff (k - 2)\<close> between consecutive attempts, where
  \<open>backoff attempt = min (1000 * 2 ^ attempt) 10000\<close> is non-decreasing, at most 10000 and starts
  at 1000; every attempt before the last one failed; a result is the response of the last
  attempt, and an error is raised only after exactly \<open>maxRetries\<close> attempts and is the error of
  the last one. With the default \<open>maxRetries\<close> there is one attempt and no wait.
\<close>

theorem retry_bound_and_backoff:
  assumes "1 \<le> maxRetries"
    and "sendToOpenClawWithRetry rt payload token maxRetries w = (res, w')"
  shows "(\<exists>k. 1 \<le> k \<and> k \<le> maxRetries
          \<and> exchanges w' = exchanges w @
                map (\<lambda>j. (HookRequest token payload, status (hooksAgent rt (length (exchanges w) + j) token payload))) [0..<k]
          \<and> timers w' = timers w @ map backoff [0..<k - 1]
          \<and> (\<forall>j<k - 1. \<not> ok (hooksAgent rt (length (exchanges w) + j) token payload))
          \<and> (case res of
                Inr r \<Rightarrow> r = hooksAgent rt (length (exchanges w) + (k - 1)) token payload \<and> ok r
              | Inl e \<Rightarrow> k = maxRetries
                  \<and> \<not> ok (hooksAgent rt (length (exchanges w) + (k - 1)) token payload)
                  \<and> e = WebhookFailed (status (hooksAgent rt (length (exchanges w) + (k - 1)) token payload))
                                      (bodyText (hooksAgent rt (length (exchanges w) + (k - 1)) token payload))))
       \<and> (\<forall>a. backoff a = min (1000 * 2 ^ a) 10000 \<and> backoff a \<le> backoff (Suc a) \<and> backoff a \<le> 10000)
       \<and> backoff 0 = 1000
       \<and> length (exchanges (snd (sendToOpenClawWithRetry rt payload token defaultMaxRetries w)))
            = Suc (length (exchanges w))
       \<and> timers (snd (sendToOpenClawWithRetry rt payload token defaultMaxRetries w)) = timers w"
proof -
  from assms(2) have "retryLoop rt payload token maxRetries 0 None w = (res, w')"
    by (simp add: sendToOpenClawWithRetry_def)
  from retryLoop_spec[OF this] obtain k where k:
    "k \<le> maxRetries"
    "exchanges w' = exchanges w @
       map (\<lambda>j. (HookRequest token payload, status (hooksAgent rt (length (exchanges w) + j) token payload))) [0..<k]"
    "timers w' = timers w @ map backoff [0..<k - 1]"
    "\<forall>j<k - 1. \<not> ok (hooksAgent rt (length (exchanges w) + j) token payload)"
    "(case res of
        Inr r \<Rightarrow> 0 < k \<and> r = hooksAgent rt (length (exchanges w) + (k - 1)) token payload \<and> ok r
      | Inl e \<Rightarrow> 0 + k = max 0 maxRetries \<and>
          (if k = 0 then e = (case None of Some e' \<Rightarrow> e' | None \<Rightarrow> FailedAfterRetries)
           else \<not> ok (hooksAgent rt (length (exchanges w) + (k - 1)) token payload) \<and>
                e = WebhookFailed (status (hooksAgent rt (length (exchanges w) + (k - 1)) token payload))
                                  (bodyText (hooksAgent rt (length (exchanges w) + (k - 1)) token payload))))"
    by auto
  have kpos: "1 \<le> k"
    using k(5) assms(1) by (cases res) auto
  have res: "(case res of
                Inr r \<Rightarrow> r = hooksAgent rt (length (exchanges w) + (k - 1)) token payload \<and> ok r
              | Inl e \<Rightarrow> k = maxRetries
                  \<and> \<not> ok (hooksAgent rt (length (exchanges w) + (k - 1)) token payload)
                  \<and> e = WebhookFailed (status (hooksAgent rt (length (exchanges w) + (k - 1)) token payload))
                                      (bodyText (hooksAgent rt (length (exchanges w) + (k - 1)) token payload)))"
    using k(5) kpos by (cases res) auto
  note tm = k(3)
  have first: "\<exists>k. 1 \<le> k \<and> k \<le> maxRetries
          \<and> exchanges w' = exchanges w @
                map (\<lambda>j. (HookRequest token payload, status (hooksAgent rt (length (exchanges w) + j) token payload))) [0..<k]
          \<and> timers w' = timers w @ map backoff [0..<k - 1]
          \<and> (\<forall>j<k - 1. \<not> ok (hooksAgent rt (length (exchanges w) + j) token payload))
          \<and> (case res of
                Inr r \<Rightarrow> r = hooksAgent rt (length (exchanges w) + (k - 1)) token payload \<and> ok r
              | Inl e \<Rightarrow> k = maxRetries
                  \<and> \<not> ok (hooksAgent rt (length (exchanges w) + (k - 1)) token payload)
                  \<and> e = WebhookFailed (status (hooksAgent rt (length (exchanges w) + (k - 1)) token payload))
                                      (bodyText (hooksAgent rt (length (exchanges w) + (k - 1)) token payload)))"
    using kpos k(1) k(2) tm k(4) res by blast
  have mono: "\<forall>a. backoff a = min (1000 * 2 ^ a) 10000 \<and> backoff a \<le> backoff (Suc a) \<and> backoff a \<le> 10000"
    "backoff 0 = 1000"
    using backoff_mono backoff_cap by (simp_all add: backoff_def)
  have dflt: "length (exchanges (snd (sendToOpenClawWithRetry rt payload token defaultMaxRetries w)))
            = Suc (length (exchanges w))"
    "timers (snd (sendToOpenClawWithRetry rt payload token defaultMaxRetries w)) = timers w"
    by (simp_all add: sendToOpenClawWithRetry_default Let_def)
  from first mono dflt show ?thesis by blast
qed


theorem retry_bound_and_backoff_witness:
  "1 \<le> (3::nat)
   \<and> fst (sendToOpenClawWithRetry downRuntime pingPayload (js ''secret'') 3 emptyWorld) = Inl (WebhookFailed 503 [])
   \<and> timers (snd (sendToOpenClawWithRetry downRuntime pingPayload (js ''secret'') 3 emptyWorld)) = [1000, 2000]
   \<and> length (exchanges (snd (sendToOpenClawWithRetry downRuntime pingPayload (js ''secret'') 3 emptyWorld))) = 3"
proof -
  let ?run = "sendToOpenClawWithRetry downRuntime pingPayload (js ''secret'') 3 emptyWorld"
  have h: "1 \<le> (3::nat)" by simp
  have e: "fst ?run = Inl (WebhookFailed 503 [])" by code_simp
  have w0: "timers emptyWorld = []" "exchanges emptyWorld = []" by (simp_all add: emptyWorld_def)
  from retry_bound_and_backoff[OF h prod.collapse[symmetric], of downRuntime pingPayload "js ''secret''" emptyWorld]
  obtain k where k: "exchanges (snd ?run) = exchanges emptyWorld @
        map (\<lambda>j. (HookRequest (js ''secret'') pingPayload,
                  status (hooksAgent downRuntime (length (exchanges emptyWorld) + j) (js ''secret'') pingPayload))) [0..<k]"
      "timers (snd ?run) = timers emptyWorld @ map backoff [0..<k - 1]"
      "(case fst ?run of
          Inr r \<Rightarrow> r = hooksAgent downRuntime (length (exchanges emptyWorld) + (k - 1)) (js ''secret'') pingPayload \<and> ok r
        | Inl e \<Rightarrow> k = 3
            \<and> \<not> ok (hooksAgent downRuntime (length (exchanges emptyWorld) + (k - 1)) (js ''secret'') pingPayload)
            \<and> e = WebhookFailed (status (hooksAgent downRuntime (length (exchanges emptyWorld) + (k - 1)) (js ''secret'') pingPayload))
                                (bodyText (hooksAgent downRuntime (length (exchanges emptyWorld) + (k - 1)) (js ''secret'') pingPayload)))"
    by blast
  from k(3) e have k3: "k = 3" by simp
  have "map backoff [0..<2] = [1000, 2000]" by code_simp
  with k(1,2) k3 w0 h e show ?thesis by simp
qed


section \<open>The change resolver\<close>

lemma refreshAccessToken_effect:
  assumes "refreshAccessToken rt cid cs rtok w = (res, w')"
  shows "exchanges w' = exchanges w @ [(TokenRequest cid cs rtok, status (oauthToken rt (length (exchanges w)) cid cs rtok))]"
    and "GMAIL_STATE w' = GMAIL_STATE w" and "timers w' = timers w"
    and "delivered w' = delivered w" and "hookAttempts w' = hookAttempts w"
    and "res = (if ok (oauthToken rt (length (exchanges w)) cid cs rtok)
                then Inr (bodyJson (oauthToken rt (length (exchanges w)) cid cs rtok))
                else Inl (TokenRefreshFailed (status (oauthToken rt (length (exchanges w)) cid cs rtok))
                                             (bodyText (oauthToken rt (length (exchanges w)) cid cs rtok))))"
  using assms by (auto simp: refreshAccessToken_def Let_def split: if_splits)

lemma queryHistory_frame:
  assumes "queryHistory rt env addr start w = (res, w')"
  shows "GMAIL_STATE w' = GMAIL_STATE w \<and> timers w' = timers w
       \<and> delivered w' = delivered w \<and> hookAttempts w' = hookAttempts w"
  using assms
  by (auto simp: queryHistory_def refreshAccessToken_def Let_def split: prod.splits sum.splits if_splits)




lemma stepWorld_simps [simp]:
  "GMAIL_STATE (stepWorld rt addr tok mid w) = GMAIL_STATE w"
  "timers (stepWorld rt addr tok mid w) = timers w"
  "delivered (stepWorld rt addr tok mid w) = delivered w"
  "hookAttempts (stepWorld rt addr tok mid w) = hookAttempts w"
  "map fst (exchanges (stepWorld rt addr tok mid w)) = map fst (exchanges w) @ [MessageRequest addr mid tok]"
  "length (exchanges (stepWorld rt addr tok mid w)) = Suc (length (exchanges w))"
  by (simp_all add: stepWorld_def Let_def split: option.split)

lemma stepWorld_console: "set (console w) \<subseteq> set (console (stepWorld rt addr tok mid w))"
  by (auto simp: stepWorld_def Let_def split: option.split)

lemma fetchMessages_Cons:
  "fetchMessages rt addr tok (mid # mids) w =
     (case stepError rt addr tok (length (exchanges w)) mid of
        Some e \<Rightarrow> (Inl e, stepWorld rt addr tok mid w)
      | None \<Rightarrow>
          (case fetchMessages rt addr tok mids (stepWorld rt addr tok mid w) of
             (Inl e, w2) \<Rightarrow> (Inl e, w2)
           | (Inr emails, w2) \<Rightarrow> (Inr (stepMails rt addr tok (length (exchanges w)) mid @ emails), w2)))"
  by (auto simp: stepError_def stepMails_def stepWorld_def Let_def
           split: option.split sum.split prod.split)

lemma fetchMessages_frame:
  "GMAIL_STATE (snd (fetchMessages rt addr tok mids w)) = GMAIL_STATE w
   \<and> timers (snd (fetchMessages rt addr tok mids w)) = timers w
   \<and> delivered (snd (fetchMessages rt addr tok mids w)) = delivered w
   \<and> hookAttempts (snd (fetchMessages rt addr tok mids w)) = hookAttempts w"
proof (induction mids arbitrary: w)
  case Nil
  show ?case by simp
next
  case (Cons mid mids)
  show ?case
    using Cons.IH[of "stepWorld rt addr tok mid w"]
    by (simp add: fetchMessages_Cons del: fetchMessages.simps split: option.split sum.split prod.split)
       (metis snd_conv)
qed

lemma fetchMessages_requests:
  "map fst (exchanges (snd (fetchMessages rt addr tok mids w)))
     = map fst (exchanges w)
       @ map (\<lambda>mid. MessageRequest addr mid tok) (requested rt addr tok (length (exchanges w)) mids)"
proof (induction mids arbitrary: w)
  case Nil
  show ?case by simp
next
  case (Cons mid mids)
  show ?case
    using Cons.IH[of "stepWorld rt addr tok mid w"]
    by (simp add: fetchMessages_Cons del: fetchMessages.simps split: option.split sum.split prod.split)
       (metis snd_conv)
qed

lemma fetchMessages_console_mono:
  "set (console w) \<subseteq> set (console (snd (fetchMessages rt addr tok mids w)))"
proof (induction mids arbitrary: w)
  case Nil
  show ?case by simp
next
  case (Cons mid mids)
  have "set (console w) \<subseteq> set (console (snd (fetchMessages rt addr tok mids (stepWorld rt addr tok mid w))))"
    using Cons.IH[of "stepWorld rt addr tok mid w"] stepWorld_console[of w rt addr tok mid] by blast
  then show ?case
    using stepWorld_console[of w rt addr tok mid]
    by (simp add: fetchMessages_Cons del: fetchMessages.simps split: option.split sum.split prod.split)
       (metis snd_conv)
qed

lemma fetchMessages_answered:
  "answered rt addr tok (length (exchanges w)) mids \<Longrightarrow>
     fst (fetchMessages rt addr tok mids w) = Inr (fetched rt addr tok (length (exchanges w)) mids)"
proof (induction mids arbitrary: w)
  case Nil
  show ?case by simp
next
  case (Cons mid mids)
  from Cons.prems have "answered rt addr tok (length (exchanges (stepWorld rt addr tok mid w))) mids"
    by simp
  from Cons.IH[OF this] Cons.prems show ?case
    by (simp add: fetchMessages_Cons del: fetchMessages.simps split: sum.split prod.split)
       (metis fst_conv sum.inject(2) sum.simps(4))
qed

lemma fetchMessages_unanswered:
  "\<not> answered rt addr tok (length (exchanges w)) mids \<Longrightarrow>
     \<exists>e. fst (fetchMessages rt addr tok mids w) = Inl e"
proof (induction mids arbitrary: w)
  case Nil
  then show ?case by simp
next
  case (Cons mid mids)
  show ?case
  proof (cases "stepError rt addr tok (length (exchanges w)) mid")
    case (Some e)
    then show ?thesis by (simp add: fetchMessages_Cons del: fetchMessages.simps)
  next
    case None
    with Cons.prems have "\<not> answered rt addr tok (length (exchanges (stepWorld rt addr tok mid w))) mids"
      by simp
    from Cons.IH[OF this] obtain e where
      "fst (fetchMessages rt addr tok mids (stepWorld rt addr tok mid w)) = Inl e" by blast
    with None show ?thesis
      by (cases "fetchMessages rt addr tok mids (stepWorld rt addr tok mid w)")
         (simp add: fetchMessages_Cons del: fetchMessages.simps)
  qed
qed

lemma fetchMessages_Inr:
  assumes "fetchMessages rt addr tok mids w = (Inr emails, w')"
  shows "answered rt addr tok (length (exchanges w)) mids
       \<and> emails = fetched rt addr tok (length (exchanges w)) mids"
proof -
  have a: "answered rt addr tok (length (exchanges w)) mids"
    using fetchMessages_unanswered[of rt addr tok w mids] assms by auto
  from fetchMessages_answered[OF a] assms show ?thesis using a by simp
qed

lemma requested_answered:
  "answered rt addr tok k mids \<Longrightarrow> requested rt addr tok k mids = mids"
  by (induction mids arbitrary: k) simp_all

lemma fetched_append:
  "fetched rt addr tok k (xs @ ys) = fetched rt addr tok k xs @ fetched rt addr tok (k + length xs) ys"
  by (induction xs arbitrary: k) simp_all

lemma answered_append:
  "answered rt addr tok k (xs @ ys) \<longleftrightarrow>
     answered rt addr tok k xs \<and> answered rt addr tok (k + length xs) ys"
  by (induction xs arbitrary: k) auto

lemma stepMails_length: "length (stepMails rt addr tok k mid) \<le> 1"
  by (simp add: stepMails_def split: option.split sum.split)

lemma fetched_length: "length (fetched rt addr tok k mids) \<le> length mids"
proof (induction mids arbitrary: k)
  case Nil
  show ?case by simp
next
  case (Cons mid mids)
  from Cons.IH[of "Suc k"] stepMails_length[of rt addr tok k mid] show ?case by simp
qed

lemma fetchNewEmails_unfold:
  assumes "queryHistory rt env addr c w = (Inr (tok, feed), w1)"
  shows "fetchNewEmails rt env addr c w =
           fetchMessages rt addr tok (collectMessageIds feed)
             (if collectMessageIds feed = [] then w1
              else consoleLog (FoundMessages (length (collectMessageIds feed))) w1)"
  using assms by (simp add: fetchNewEmails_def Let_def)

lemma fetchNewEmails_resolved:
  assumes "queryHistory rt env addr c w = (Inr (tok, feed), w1)"
    and "answered rt addr tok (length (exchanges w1)) (collectMessageIds feed)"
  shows "fst (fetchNewEmails rt env addr c w)
            = Inr (fetched rt addr tok (length (exchanges w1)) (collectMessageIds feed))
       \<and> GMAIL_STATE (snd (fetchNewEmails rt env addr c w)) = GMAIL_STATE w
       \<and> timers (snd (fetchNewEmails rt env addr c w)) = timers w
       \<and> delivered (snd (fetchNewEmails rt env addr c w)) = delivered w
       \<and> hookAttempts (snd (fetchNewEmails rt env addr c w)) = hookAttempts w
       \<and> length (exchanges (snd (fetchNewEmails rt env addr c w)))
            = length (exchanges w1) + length (collectMessageIds feed)"
proof -
  let ?v = "if collectMessageIds feed = [] then w1
            else consoleLog (FoundMessages (length (collectMessageIds feed))) w1"
  have ex: "exchanges ?v = exchanges w1" by simp
  have fr: "GMAIL_STATE ?v = GMAIL_STATE w \<and> timers ?v = timers w
       \<and> delivered ?v = delivered w \<and> hookAttempts ?v = hookAttempts w"
    using queryHistory_frame[OF assms(1)] by simp
  have a: "answered rt addr tok (length (exchanges ?v)) (collectMessageIds feed)"
    using assms(2) ex by simp
  have len: "length (exchanges (snd (fetchMessages rt addr tok (collectMessageIds feed) ?v)))
               = length (exchanges w1) + length (collectMessageIds feed)"
    using arg_cong[OF fetchMessages_requests[of rt addr tok "collectMessageIds feed" ?v], of length]
      requested_answered[OF a] ex by simp
  show ?thesis
    unfolding fetchNewEmails_unfold[OF assms(1)]
    using fetchMessages_answered[OF a] fetchMessages_frame[of rt addr tok "collectMessageIds feed" ?v]
      fr len ex by simp
qed

lemma fetchNewEmails_failed:
  assumes "queryHistory rt env addr c w = (Inl e, w1)"
  shows "fetchNewEmails rt env addr c w = (Inl e, w1)"
  using assms by (simp add: fetchNewEmails_def)

lemma fetchNewEmails_frame:
  "GMAIL_STATE (snd (fetchNewEmails rt env addr c w)) = GMAIL_STATE w
   \<and> timers (snd (fetchNewEmails rt env addr c w)) = timers w
   \<and> delivered (snd (fetchNewEmails rt env addr c w)) = delivered w
   \<and> hookAttempts (snd (fetchNewEmails rt env addr c w)) = hookAttempts w"
proof (cases "queryHistory rt env addr c w")
  case (Pair res w1)
  show ?thesis
  proof (cases res)
    case (Inl e)
    with Pair fetchNewEmails_failed[of rt env addr c w e w1] queryHistory_frame[of rt env addr c w res w1]
    show ?thesis by simp
  next
    case (Inr v)
    obtain tok feed where v: "v = (tok, feed)" by (cases v)
    let ?v = "if collectMessageIds feed = [] then w1
              else consoleLog (FoundMessages (length (collectMessageIds feed))) w1"
    have fr: "GMAIL_STATE ?v = GMAIL_STATE w \<and> timers ?v = timers w
       \<and> delivered ?v = delivered w \<and> hookAttempts ?v = hookAttempts w"
      using queryHistory_frame[of rt env addr c w res w1] Pair by simp
    from Pair Inr v have q: "queryHistory rt env addr c w = (Inr (tok, feed), w1)" by simp
    show ?thesis
      unfolding fetchNewEmails_unfold[OF q]
      using fetchMessages_frame[of rt addr tok "collectMessageIds feed" ?v] fr by simp
  qed
qed

lemma fetchNewEmails_Inr:
  assumes "fetchNewEmails rt env addr c w = (Inr emails, w')"
  shows "\<exists>tok k mids. emails = fetched rt addr tok k mids"
proof (cases "queryHistory rt env addr c w")
  case (Pair res w1)
  show ?thesis
  proof (cases res)
    case (Inl e)
    with Pair assms fetchNewEmails_failed[of rt env addr c w e w1] show ?thesis by simp
  next
    case (Inr v)
    obtain tok feed where v: "v = (tok, feed)" by (cases v)
    from Pair Inr v have q: "queryHistory rt env addr c w = (Inr (tok, feed), w1)" by simp
    from assms fetchMessages_Inr show ?thesis
      unfolding fetchNewEmails_unfold[OF q] by blast
  qed
qed

section \<open>The delivery loop\<close>

lemma processEmails_Inr:
  "processEmails rt env emails pc fc w = (Inr (pc', fc'), w') \<Longrightarrow>
     delivered w' = delivered w @ map transformToOpenClaw
        (filter (\<lambda>e. isAllowedSender rt (from' e) (ALLOWED_SENDERS env)) emails)
     \<and> hookAttempts w' = hookAttempts w @ map transformToOpenClaw
        (filter (\<lambda>e. isAllowedSender rt (from' e) (ALLOWED_SENDERS env)) emails)
     \<and> GMAIL_STATE w' = GMAIL_STATE w \<and> timers w' = timers w
     \<and> pc' = pc + length (filter (\<lambda>e. isAllowedSender rt (from' e) (ALLOWED_SENDERS env)) emails)
     \<and> fc' = fc + length (filter (\<lambda>e. \<not> isAllowedSender rt (from' e) (ALLOWED_SENDERS env)) emails)"
proof (induction emails arbitrary: pc fc w)
  case Nil
  then show ?case by simp
next
  case (Cons email emails)
  show ?case
  proof (cases "isAllowedSender rt (from' email) (ALLOWED_SENDERS env)")
    case False
    with Cons.prems have
      "processEmails rt env emails pc (fc + 1)
         (consoleLog FilteredOut (consoleLog (EmailFrom (from' email) (subject email)) w)) = (Inr (pc', fc'), w')"
      by (simp add: Let_def)
    from Cons.IH[OF this] False show ?thesis by simp
  next
    case True
    let ?w1 = "consoleLog (EmailFrom (from' email) (subject email)) w"
    let ?r = "hooksAgent rt (length (exchanges ?w1)) (OPENCLAW_HOOK_TOKEN env) (transformToOpenClaw email)"
    let ?w2 = "exchange (HookRequest (OPENCLAW_HOOK_TOKEN env) (transformToOpenClaw email)) (status ?r) ?w1"
    from Cons.prems True have okr: "ok ?r"
      by (auto simp: Let_def sendToOpenClawWithRetry_default split: if_splits)
    with Cons.prems True have
      "processEmails rt env emails (pc + 1) fc (consoleLog SentToOpenClaw ?w2) = (Inr (pc', fc'), w')"
      by (simp add: Let_def sendToOpenClawWithRetry_default)
    from Cons.IH[OF this] True okr show ?thesis by (simp add: ok_def)
  qed
qed

lemma processEmails_Inl:
  "processEmails rt env emails pc fc w = (Inl e, w') \<Longrightarrow>
     \<exists>pre m post s tx. emails = pre @ m # post
       \<and> isAllowedSender rt (from' m) (ALLOWED_SENDERS env)
       \<and> delivered w' = delivered w @ map transformToOpenClaw
            (filter (\<lambda>e. isAllowedSender rt (from' e) (ALLOWED_SENDERS env)) pre)
       \<and> hookAttempts w' = hookAttempts w @ map transformToOpenClaw
            (filter (\<lambda>e. isAllowedSender rt (from' e) (ALLOWED_SENDERS env)) pre) @ [transformToOpenClaw m]
       \<and> GMAIL_STATE w' = GMAIL_STATE w
       \<and> e = WebhookFailed s tx \<and> \<not> (200 \<le> s \<and> s \<le> 299)
       \<and> last (exchanges w') = (HookRequest (OPENCLAW_HOOK_TOKEN env) (transformToOpenClaw m), s)
       \<and> last (console w') = AttemptFailed 1 e"
proof (induction emails arbitrary: pc fc w)
  case Nil
  then show ?case by simp
next
  case (Cons email emails)
  let ?allowed = "\<lambda>e. isAllowedSender rt (from' e) (ALLOWED_SENDERS env)"
  show ?case
  proof (cases "?allowed email")
    case False
    with Cons.prems have
      "processEmails rt env emails pc (fc + 1)
         (consoleLog FilteredOut (consoleLog (EmailFrom (from' email) (subject email)) w)) = (Inl e, w')"
      by (simp add: Let_def)
    from Cons.IH[OF this] obtain pre m post s tx where h:
      "emails = pre @ m # post" "?allowed m"
      "delivered w' = delivered w @ map transformToOpenClaw (filter ?allowed pre)"
      "hookAttempts w' = hookAttempts w @ map transformToOpenClaw (filter ?allowed pre) @ [transformToOpenClaw m]"
      "GMAIL_STATE w' = GMAIL_STATE w" "e = WebhookFailed s tx" "\<not> (200 \<le> s \<and> s \<le> 299)"
      "last (exchanges w') = (HookRequest (OPENCLAW_HOOK_TOKEN env) (transformToOpenClaw m), s)"
      "last (console w') = AttemptFailed 1 e"
      by auto
    show ?thesis
      by (rule exI[of _ "email # pre"], rule exI[of _ m], rule exI[of _ post], rule exI[of _ s], rule exI[of _ tx])
         (use h False in simp)
  next
    case True
    let ?w1 = "consoleLog (EmailFrom (from' email) (subject email)) w"
    let ?r = "hooksAgent rt (length (exchanges ?w1)) (OPENCLAW_HOOK_TOKEN env) (transformToOpenClaw email)"
    let ?w2 = "exchange (HookRequest (OPENCLAW_HOOK_TOKEN env) (transformToOpenClaw email)) (status ?r) ?w1"
    show ?thesis
    proof (cases "ok ?r")
      case False
      with Cons.prems True have e: "e = WebhookFailed (status ?r) (bodyText ?r)"
        and w': "w' = consoleLog (AttemptFailed 1 e) ?w2"
        by (auto simp: Let_def sendToOpenClawWithRetry_default)
      show ?thesis
        by (rule exI[of _ "[]"], rule exI[of _ email], rule exI[of _ emails],
            rule exI[of _ "status ?r"], rule exI[of _ "bodyText ?r"])
           (use e w' True False in \<open>simp add: ok_def\<close>)
    next
      case okr: True
      with Cons.prems True have
        "processEmails rt env emails (pc + 1) fc (consoleLog SentToOpenClaw ?w2) = (Inl e, w')"
        by (simp add: Let_def sendToOpenClawWithRetry_default)
      from Cons.IH[OF this] obtain pre m post s tx where h:
        "emails = pre @ m # post" "?allowed m"
        "delivered w' = delivered (consoleLog SentToOpenClaw ?w2) @ map transformToOpenClaw (filter ?allowed pre)"
        "hookAttempts w' = hookAttempts (consoleLog SentToOpenClaw ?w2) @ map transformToOpenClaw (filter ?allowed pre) @ [transformToOpenClaw m]"
        "GMAIL_STATE w' = GMAIL_STATE (consoleLog SentToOpenClaw ?w2)" "e = WebhookFailed s tx" "\<not> (200 \<le> s \<and> s \<le> 299)"
        "last (exchanges w') = (HookRequest (OPENCLAW_HOOK_TOKEN env) (transformToOpenClaw m), s)"
        "last (console w') = AttemptFailed 1 e"
        by auto
      show ?thesis
        by (rule exI[of _ "email # pre"], rule exI[of _ m], rule exI[of _ post], rule exI[of _ s], rule exI[of _ tx])
           (use h True okr in \<open>simp add: ok_def\<close>)
    qed
  qed
qed

lemma processEmails_kv:
  "GMAIL_STATE (snd (processEmails rt env emails pc fc w)) = GMAIL_STATE w"
proof (cases "processEmails rt env emails pc fc w")
  case (Pair res w')
  show ?thesis
  proof (cases res)
    case (Inl e)
    with Pair processEmails_Inl[of rt env emails pc fc w e w'] show ?thesis by auto
  next
    case (Inr c)
    with Pair processEmails_Inr[of rt env emails pc fc w "fst c" "snd c" w'] show ?thesis by auto
  qed
qed


lemma deliveryAnswer_Cons:
  "deliveryAnswer rt env k (e # mails) (Suc j) = deliveryAnswer rt env (Suc k) mails j"
  "deliveryAnswer rt env k (e # mails) 0
     = hooksAgent rt k (OPENCLAW_HOOK_TOKEN env) (transformToOpenClaw e)"
  by (simp_all add: deliveryAnswer_def)

lemma passing_Cons:
  "passing rt env (e # emails)
     = (if isAllowedSender rt (from' e) (ALLOWED_SENDERS env) then e # passing rt env emails
        else passing rt env emails)"
  by (simp add: passing_def)

lemma passing_length: "length (passing rt env emails) \<le> length emails"
  by (simp add: passing_def)

lemma processEmails_upto:
  "i \<le> length (passing rt env emails) \<Longrightarrow>
   \<forall>j<i. ok (deliveryAnswer rt env (length (exchanges w)) (passing rt env emails) j) \<Longrightarrow>
   (i < length (passing rt env emails) \<longrightarrow>
      \<not> ok (deliveryAnswer rt env (length (exchanges w)) (passing rt env emails) i)) \<Longrightarrow>
     fst (processEmails rt env emails pc fc w)
       = (if i < length (passing rt env emails)
          then Inl (WebhookFailed
                      (status (deliveryAnswer rt env (length (exchanges w)) (passing rt env emails) i))
                      (bodyText (deliveryAnswer rt env (length (exchanges w)) (passing rt env emails) i)))
          else Inr (pc + length (passing rt env emails),
                    fc + (length emails - length (passing rt env emails))))
     \<and> delivered (snd (processEmails rt env emails pc fc w))
          = delivered w @ map transformToOpenClaw (take i (passing rt env emails))
     \<and> hookAttempts (snd (processEmails rt env emails pc fc w))
          = hookAttempts w @ map transformToOpenClaw (take (Suc i) (passing rt env emails))
     \<and> GMAIL_STATE (snd (processEmails rt env emails pc fc w)) = GMAIL_STATE w
     \<and> timers (snd (processEmails rt env emails pc fc w)) = timers w
     \<and> (i < length (passing rt env emails) \<longrightarrow>
           last (exchanges (snd (processEmails rt env emails pc fc w)))
             = (HookRequest (OPENCLAW_HOOK_TOKEN env) (transformToOpenClaw (passing rt env emails ! i)),
                status (deliveryAnswer rt env (length (exchanges w)) (passing rt env emails) i)))"
proof (induction emails arbitrary: i pc fc w)
  case Nil
  then show ?case by (simp add: passing_def)
next
  case (Cons email emails)
  let ?w1 = "consoleLog (EmailFrom (from' email) (subject email)) w"
  show ?case
  proof (cases "isAllowedSender rt (from' email) (ALLOWED_SENDERS env)")
    case False
    then have p: "passing rt env (email # emails) = passing rt env emails"
      by (simp add: passing_Cons)
    have ex: "length (exchanges (consoleLog FilteredOut ?w1)) = length (exchanges w)" by simp
    have run: "processEmails rt env (email # emails) pc fc w
                 = processEmails rt env emails pc (fc + 1) (consoleLog FilteredOut ?w1)"
      using False by (simp add: Let_def)
    have cnt: "fc + 1 + (length emails - length (passing rt env emails))
                 = fc + (length (email # emails) - length (passing rt env emails))"
      using passing_length[of rt env emails] by simp
    from Cons.IH[of i "consoleLog FilteredOut ?w1" pc "fc + 1"] Cons.prems
    show ?thesis unfolding p run ex cnt[symmetric] by simp
  next
    case True
    then have p: "passing rt env (email # emails) = email # passing rt env emails"
      by (simp add: passing_Cons)
    let ?r = "hooksAgent rt (length (exchanges w)) (OPENCLAW_HOOK_TOKEN env) (transformToOpenClaw email)"
    let ?w2 = "exchange (HookRequest (OPENCLAW_HOOK_TOKEN env) (transformToOpenClaw email)) (status ?r) ?w1"
    show ?thesis
    proof (cases i)
      case 0
      with Cons.prems(3) p have nok: "\<not> ok ?r"
        by (simp add: deliveryAnswer_Cons)
      then have run: "processEmails rt env (email # emails) pc fc w
                   = (Inl (WebhookFailed (status ?r) (bodyText ?r)),
                      consoleLog (AttemptFailed 1 (WebhookFailed (status ?r) (bodyText ?r))) ?w2)"
        using True by (simp add: Let_def sendToOpenClawWithRetry_default)
      from nok have st: "\<not> (200 \<le> status ?r \<and> status ?r \<le> 299)" by (simp add: ok_def)
      show ?thesis
        unfolding run p using 0 st by (simp add: deliveryAnswer_Cons)
    next
      case (Suc i')
      with Cons.prems(2) p have okr: "ok ?r"
        by (auto simp: deliveryAnswer_Cons)
      then have run: "processEmails rt env (email # emails) pc fc w
                   = processEmails rt env emails (pc + 1) fc (consoleLog SentToOpenClaw ?w2)"
        using True by (simp add: Let_def sendToOpenClawWithRetry_default)
      have ex: "length (exchanges (consoleLog SentToOpenClaw ?w2)) = Suc (length (exchanges w))" by simp
      from okr have st: "200 \<le> status ?r \<and> status ?r \<le> 299" by (simp add: ok_def)
      have h1: "i' \<le> length (passing rt env emails)"
        using Cons.prems(1) Suc p by simp
      have h2: "\<forall>j<i'. ok (deliveryAnswer rt env (length (exchanges (consoleLog SentToOpenClaw ?w2)))
                               (passing rt env emails) j)"
      proof (intro allI impI)
        fix j assume "j < i'"
        with Suc have "Suc j < i" by simp
        with Cons.prems(2) p show "ok (deliveryAnswer rt env (length (exchanges (consoleLog SentToOpenClaw ?w2)))
                               (passing rt env emails) j)"
          unfolding ex by (metis deliveryAnswer_Cons(1))
      qed
      have h3: "i' < length (passing rt env emails) \<longrightarrow>
                  \<not> ok (deliveryAnswer rt env (length (exchanges (consoleLog SentToOpenClaw ?w2)))
                               (passing rt env emails) i')"
        using Cons.prems(3) Suc p unfolding ex by (simp add: deliveryAnswer_Cons)
      have cnt: "pc + 1 + length (passing rt env emails) = pc + length (email # passing rt env emails)"
        by simp
      from Cons.IH[OF h1 h2 h3, of "pc + 1" fc]
      show ?thesis
        unfolding run p ex using Suc st by (simp add: deliveryAnswer_Cons)
    qed
  qed
qed

section \<open>The notification handler\<close>

lemma processNotification_stored:
  assumes "GMAIL_STATE w (cursorKey (emailAddress n)) = Some c" and "c \<noteq> []"
  shows "processNotification rt env n w =
     (case fetchNewEmails rt env (emailAddress n) c
             (consoleLog (NewNotification (emailAddress n) (historyId n)) w) of
        (Inl e, w1) \<Rightarrow> consoleLog (ErrorProcessing e) w1
      | (Inr emails, w1) \<Rightarrow>
          if emails = [] then
            kvPut (cursorKey (emailAddress n)) (historyId n) (consoleLog NoNewMessages w1)
          else
            (case processEmails rt env emails 0 0 (consoleLog (ProcessingEmails (length emails)) w1) of
               (Inl e, w2) \<Rightarrow> consoleLog (ErrorProcessing e) w2
             | (Inr (processedCount, filteredCount), w2) \<Rightarrow>
                 kvPut (cursorKey (emailAddress n)) (historyId n)
                   (consoleLog (Summary processedCount filteredCount) w2)))"
  using assms by (simp add: processNotification_def Let_def)

lemma processNotification_baseline:
  assumes "\<not> truthy (GMAIL_STATE w (cursorKey (emailAddress n)))"
  shows "processNotification rt env n w =
     kvPut (cursorKey (emailAddress n)) (historyId n)
       (consoleLog FirstNotification (consoleLog (NewNotification (emailAddress n) (historyId n)) w))"
  using assms by (simp add: processNotification_def Let_def)

lemma processNotification_kv:
  "GMAIL_STATE (processNotification rt env n w) = GMAIL_STATE w
   \<or> GMAIL_STATE (processNotification rt env n w)
        = (GMAIL_STATE w)(cursorKey (emailAddress n) \<mapsto> historyId n)"
proof (cases "truthy (GMAIL_STATE w (cursorKey (emailAddress n)))")
  case False
  then show ?thesis by (simp add: processNotification_baseline)
next
  case True
  then obtain c where c: "GMAIL_STATE w (cursorKey (emailAddress n)) = Some c" "c \<noteq> []"
    by (cases "GMAIL_STATE w (cursorKey (emailAddress n))") auto
  let ?w0 = "consoleLog (NewNotification (emailAddress n) (historyId n)) w"
  obtain res w1 where f: "fetchNewEmails rt env (emailAddress n) c ?w0 = (res, w1)"
    by (cases "fetchNewEmails rt env (emailAddress n) c ?w0")
  have w1: "GMAIL_STATE w1 = GMAIL_STATE w"
    using fetchNewEmails_frame[of rt env "emailAddress n" c ?w0] f by simp
  show ?thesis
  proof (cases res)
    case (Inl e)
    with f w1 show ?thesis by (simp add: processNotification_stored[OF c])
  next
    case (Inr emails)
    let ?w1' = "consoleLog (ProcessingEmails (length emails)) w1"
    obtain res2 w2 where p: "processEmails rt env emails 0 0 ?w1' = (res2, w2)"
      by (cases "processEmails rt env emails 0 0 ?w1'")
    have w2: "GMAIL_STATE w2 = GMAIL_STATE w"
      using processEmails_kv[of rt env emails 0 0 ?w1'] p w1 by simp
    from f Inr p w1 w2 show ?thesis
      by (cases res2) (auto simp: processNotification_stored[OF c])
  qed
qed

lemma cursorKey_inj: "cursorKey a = cursorKey b \<longleftrightarrow> a = b"
  by (simp add: cursorKey_def)

lemma processNotification_resolved:
  assumes "GMAIL_STATE w (cursorKey (emailAddress n)) = Some c1" and "c1 \<noteq> []"
    and "queryHistory rt env (emailAddress n) c1
           (consoleLog (NewNotification (emailAddress n) (historyId n)) w) = (Inr (tok, feed), w1)"
    and "answered rt (emailAddress n) tok (length (exchanges w1)) (collectMessageIds feed)"
    and "\<forall>j<length (passing rt env (fetched rt (emailAddress n) tok (length (exchanges w1))
                                    (collectMessageIds feed))).
           ok (deliveryAnswer rt env (length (exchanges w1) + length (collectMessageIds feed))
                 (passing rt env (fetched rt (emailAddress n) tok (length (exchanges w1))
                                    (collectMessageIds feed))) j)"
  shows "delivered (processNotification rt env n w)
           = delivered w @ map transformToOpenClaw
               (passing rt env (fetched rt (emailAddress n) tok (length (exchanges w1))
                                  (collectMessageIds feed)))
       \<and> hookAttempts (processNotification rt env n w)
           = hookAttempts w @ map transformToOpenClaw
               (passing rt env (fetched rt (emailAddress n) tok (length (exchanges w1))
                                  (collectMessageIds feed)))
       \<and> GMAIL_STATE (processNotification rt env n w)
           = (GMAIL_STATE w)(cursorKey (emailAddress n) \<mapsto> historyId n)"
proof -
  let ?v = "consoleLog (NewNotification (emailAddress n) (historyId n)) w"
  let ?emails = "fetched rt (emailAddress n) tok (length (exchanges w1)) (collectMessageIds feed)"
  let ?A = "passing rt env ?emails"
  let ?f = "fetchNewEmails rt env (emailAddress n) c1 ?v"
  from fetchNewEmails_resolved[OF assms(3,4)]
  have f: "?f = (Inr ?emails, snd ?f)"
    and w2: "GMAIL_STATE (snd ?f) = GMAIL_STATE w" "delivered (snd ?f) = delivered w"
      "hookAttempts (snd ?f) = hookAttempts w"
      "length (exchanges (snd ?f)) = length (exchanges w1) + length (collectMessageIds feed)"
    by (simp_all add: prod_eq_iff)
  show ?thesis
  proof (cases "?emails = []")
    case True
    have "processNotification rt env n w
            = kvPut (cursorKey (emailAddress n)) (historyId n) (consoleLog NoNewMessages (snd ?f))"
      by (subst processNotification_stored[OF assms(1,2)], subst f) (simp add: True)
    with w2 True show ?thesis by (simp add: passing_def)
  next
    case False
    let ?w2 = "consoleLog (ProcessingEmails (length ?emails)) (snd ?f)"
    let ?p = "processEmails rt env ?emails 0 0 ?w2"
    have ex: "length (exchanges ?w2) = length (exchanges w1) + length (collectMessageIds feed)"
      using w2(4) by simp
    have u: "fst ?p = Inr (0 + length ?A, 0 + (length ?emails - length ?A))
           \<and> delivered (snd ?p) = delivered ?w2 @ map transformToOpenClaw (take (length ?A) ?A)
           \<and> hookAttempts (snd ?p) = hookAttempts ?w2 @ map transformToOpenClaw (take (Suc (length ?A)) ?A)
           \<and> GMAIL_STATE (snd ?p) = GMAIL_STATE ?w2"
      using processEmails_upto[of "length ?A" rt env ?emails ?w2 0 0] assms(5) unfolding ex by simp
    then have p: "?p = (Inr (length ?A, length ?emails - length ?A), snd ?p)"
      by (simp add: prod_eq_iff)
    have "processNotification rt env n w
            = kvPut (cursorKey (emailAddress n)) (historyId n)
                (consoleLog (Summary (length ?A) (length ?emails - length ?A)) (snd ?p))"
      by (subst processNotification_stored[OF assms(1,2)], subst f, simp add: False, subst p, simp)
    with u w2 show ?thesis by simp
  qed
qed

text \<open>
  C3. Baseline property. For a mailbox with no stored cursor, processing any notification
  stores the cursor of the notification under the key of the mailbox and stops: no exchange
  is made at all (no token request, no history query, no message request, no delivery), no
  timer is awaited, and the console shows the notification and the baseline line only.
\<close>

theorem baseline_property:
  assumes "GMAIL_STATE w (cursorKey (emailAddress n)) = None"
  shows "GMAIL_STATE (processNotification rt env n w)
           = (GMAIL_STATE w)(cursorKey (emailAddress n) \<mapsto> historyId n)
       \<and> exchanges (processNotification rt env n w) = exchanges w
       \<and> hookAttempts (processNotification rt env n w) = hookAttempts w
       \<and> delivered (processNotification rt env n w) = delivered w
       \<and> timers (processNotification rt env n w) = timers w
       \<and> console (processNotification rt env n w)
           = console w @ [NewNotification (emailAddress n) (historyId n), FirstNotification]"
  using assms by (simp add: processNotification_baseline)

theorem baseline_property_witness:
  "GMAIL_STATE emptyWorld (cursorKey (emailAddress notification50)) = None
   \<and> GMAIL_STATE (processNotification healthyRuntime openEnv notification50 emptyWorld) (cursorKey mailbox)
       = Some (js ''50'')
   \<and> exchanges (processNotification healthyRuntime openEnv notification50 emptyWorld) = []
   \<and> delivered (processNotification healthyRuntime openEnv notification50 emptyWorld) = []"
proof -
  have h: "GMAIL_STATE emptyWorld (cursorKey (emailAddress notification50)) = None"
    by (simp add: emptyWorld_def)
  from baseline_property[OF h, of healthyRuntime openEnv] h show ?thesis
    by (simp add: emptyWorld_def notification50_def delivered_def)
qed




text \<open>
  C2, as amended. Let the stored cursor be non-empty and let the resolution yield the
  messages \<open>emails\<close>, of which \<open>passing rt env emails\<close> pass the filter. If the hand-over of the
  \<open>i\<close>-th of these is answered with a failure status, all earlier ones having been accepted,
  then the handler stops there: the earlier ones are delivered, the failed hand-over is the
  last exchange of the handler, so no later message is handed over; the handler logs the
  error of that hand-over as its last console line; and the key-value namespace is left as
  it was, so the stored cursor is not advanced. A delivery error prevents the cursor
  advancement just as a resolution error does.
\<close>

theorem delivery_failure_aborts:
  assumes "GMAIL_STATE w (cursorKey (emailAddress n)) = Some c1" and "c1 \<noteq> []"
    and "fetchNewEmails rt env (emailAddress n) c1
           (consoleLog (NewNotification (emailAddress n) (historyId n)) w) = (Inr emails, w1)"
    and "i < length (passing rt env emails)"
    and "\<forall>j<i. ok (deliveryAnswer rt env (length (exchanges w1)) (passing rt env emails) j)"
    and "\<not> ok (deliveryAnswer rt env (length (exchanges w1)) (passing rt env emails) i)"
  shows "GMAIL_STATE (processNotification rt env n w) = GMAIL_STATE w
       \<and> last (console (processNotification rt env n w))
           = ErrorProcessing
               (WebhookFailed (status (deliveryAnswer rt env (length (exchanges w1)) (passing rt env emails) i))
                              (bodyText (deliveryAnswer rt env (length (exchanges w1)) (passing rt env emails) i)))
       \<and> delivered (processNotification rt env n w)
           = delivered w @ map transformToOpenClaw (take i (passing rt env emails))
       \<and> hookAttempts (processNotification rt env n w)
           = hookAttempts w @ map transformToOpenClaw (take (Suc i) (passing rt env emails))
       \<and> last (exchanges (processNotification rt env n w))
           = (HookRequest (OPENCLAW_HOOK_TOKEN env) (transformToOpenClaw (passing rt env emails ! i)),
              status (deliveryAnswer rt env (length (exchanges w1)) (passing rt env emails) i))"
proof -
  let ?v = "consoleLog (NewNotification (emailAddress n) (historyId n)) w"
  let ?A = "passing rt env emails"
  let ?w2 = "consoleLog (ProcessingEmails (length emails)) w1"
  let ?p = "processEmails rt env emails 0 0 ?w2"
  let ?e = "WebhookFailed (status (deliveryAnswer rt env (length (exchanges w1)) ?A i))
                          (bodyText (deliveryAnswer rt env (length (exchanges w1)) ?A i))"
  have w1: "GMAIL_STATE w1 = GMAIL_STATE w" "delivered w1 = delivered w" "hookAttempts w1 = hookAttempts w"
    using fetchNewEmails_frame[of rt env "emailAddress n" c1 ?v] assms(3) by simp_all
  from assms(4) have ne: "emails \<noteq> []" by (auto simp: passing_def)
  have ex: "length (exchanges ?w2) = length (exchanges w1)" by simp
  have u: "fst ?p = Inl ?e
         \<and> delivered (snd ?p) = delivered ?w2 @ map transformToOpenClaw (take i ?A)
         \<and> hookAttempts (snd ?p) = hookAttempts ?w2 @ map transformToOpenClaw (take (Suc i) ?A)
         \<and> GMAIL_STATE (snd ?p) = GMAIL_STATE ?w2
         \<and> last (exchanges (snd ?p))
              = (HookRequest (OPENCLAW_HOOK_TOKEN env) (transformToOpenClaw (?A ! i)),
                 status (deliveryAnswer rt env (length (exchanges w1)) ?A i))"
    using processEmails_upto[of i rt env emails ?w2 0 0] assms(4,5,6) unfolding ex by simp
  then have p: "?p = (Inl ?e, snd ?p)" by (simp add: prod_eq_iff)
  have run: "processNotification rt env n w = consoleLog (ErrorProcessing ?e) (snd ?p)"
    by (subst processNotification_stored[OF assms(1,2)], subst assms(3), simp add: ne, subst p, simp)
  from u w1 show ?thesis unfolding run by simp
qed

theorem delivery_failure_aborts_witness:
  "GMAIL_STATE (storedWorld (js ''40'')) (cursorKey (emailAddress notification50)) = Some (js ''40'')
   \<and> js ''40'' \<noteq> []
   \<and> fst (fetchNewEmails flakyRuntime openEnv (emailAddress notification50) (js ''40'')
             (consoleLog (NewNotification (emailAddress notification50) (historyId notification50))
                (storedWorld (js ''40''))))
       = Inr [mailOf (js ''m1''), mailOf (js ''m2''), mailOf (js ''m3'')]
   \<and> passing flakyRuntime openEnv [mailOf (js ''m1''), mailOf (js ''m2''), mailOf (js ''m3'')]
       = [mailOf (js ''m1''), mailOf (js ''m2''), mailOf (js ''m3'')]
   \<and> status (hooksAgent flakyRuntime 5 (js ''hook'') (transformToOpenClaw (mailOf (js ''m1'')))) = 200
   \<and> status (hooksAgent flakyRuntime 6 (js ''hook'') (transformToOpenClaw (mailOf (js ''m2'')))) = 503
   \<and> GMAIL_STATE (processNotification flakyRuntime openEnv notification50 (storedWorld (js ''40'')))
         (cursorKey mailbox) = Some (js ''40'')
   \<and> delivered (processNotification flakyRuntime openEnv notification50 (storedWorld (js ''40'')))
       = [transformToOpenClaw (mailOf (js ''m1''))]
   \<and> hookAttempts (processNotification flakyRuntime openEnv notification50 (storedWorld (js ''40'')))
       = [transformToOpenClaw (mailOf (js ''m1'')), transformToOpenClaw (mailOf (js ''m2''))]
   \<and> last (console (processNotification flakyRuntime openEnv notification50 (storedWorld (js ''40''))))
       = ErrorProcessing (WebhookFailed 503 [])"
proof -
  let ?w = "storedWorld (js ''40'')"
  let ?v = "consoleLog (NewNotification (emailAddress notification50) (historyId notification50)) ?w"
  let ?f = "fetchNewEmails flakyRuntime openEnv (emailAddress notification50) (js ''40'') ?v"
  let ?emails = "[mailOf (js ''m1''), mailOf (js ''m2''), mailOf (js ''m3'')]"
  have h1: "GMAIL_STATE ?w (cursorKey (emailAddress notification50)) = Some (js ''40'')"
    by (simp add: storedWorld_def notification50_def)
  have h2: "js ''40'' \<noteq> []" by (simp add: js_def)
  have f: "fst ?f = Inr ?emails" by code_simp
  then have h3: "?f = (Inr ?emails, snd ?f)" by (simp add: prod_eq_iff)
  have pa: "passing flakyRuntime openEnv ?emails = ?emails" by code_simp
  have len: "length (exchanges (snd ?f)) = 5" by code_simp
  have s5: "status (hooksAgent flakyRuntime 5 (js ''hook'') (transformToOpenClaw (mailOf (js ''m1'')))) = 200"
    and s6: "status (hooksAgent flakyRuntime 6 (js ''hook'') (transformToOpenClaw (mailOf (js ''m2'')))) = 503"
    and bt: "bodyText (hooksAgent flakyRuntime 6 (js ''hook'') (transformToOpenClaw (mailOf (js ''m2'')))) = []"
    by code_simp+
  have tok: "OPENCLAW_HOOK_TOKEN openEnv = js ''hook''" by (simp add: openEnv_def)
  have h4: "(1::nat) < length (passing flakyRuntime openEnv ?emails)" unfolding pa by simp
  have h5: "\<forall>j<(1::nat). ok (deliveryAnswer flakyRuntime openEnv (length (exchanges (snd ?f)))
                          (passing flakyRuntime openEnv ?emails) j)"
    unfolding pa len using s5 by (simp add: deliveryAnswer_def ok_def tok)
  have h6: "\<not> ok (deliveryAnswer flakyRuntime openEnv (length (exchanges (snd ?f)))
                          (passing flakyRuntime openEnv ?emails) 1)"
    unfolding pa len using s6 by (simp add: deliveryAnswer_def ok_def tok)
  have d0: "delivered ?w = []" "hookAttempts ?w = []"
    by (simp_all add: storedWorld_def delivered_def hookAttempts_def)
  from delivery_failure_aborts[OF h1 h2 h3 h4 h5 h6] h1 h2 f pa s5 s6 bt d0 tok len
  show ?thesis
    by (simp add: notification50_def deliveryAnswer_def)
qed

text \<open>
  C2 as stated fails. Three messages are resolved and pass the filter; the downstream
  endpoint accepts the first delivery and rejects the second with 503. The handler logs the
  error, never hands over the third message, and the stored cursor stays 40 instead of 50.
\<close>

theorem delivery_failure_counterexample:
  "GMAIL_STATE (storedWorld (js ''40'')) (cursorKey mailbox) = Some (js ''40'')
   \<and> fst (fetchNewEmails flakyRuntime openEnv mailbox (js ''40'')
             (consoleLog (NewNotification mailbox (js ''50'')) (storedWorld (js ''40''))))
       = Inr [mailOf (js ''m1''), mailOf (js ''m2''), mailOf (js ''m3'')]
   \<and> hookAttempts (processNotification flakyRuntime openEnv notification50 (storedWorld (js ''40'')))
       = [transformToOpenClaw (mailOf (js ''m1'')), transformToOpenClaw (mailOf (js ''m2''))]
   \<and> delivered (processNotification flakyRuntime openEnv notification50 (storedWorld (js ''40'')))
       = [transformToOpenClaw (mailOf (js ''m1''))]
   \<and> last (console (processNotification flakyRuntime openEnv notification50 (storedWorld (js ''40''))))
       = ErrorProcessing (WebhookFailed 503 [])
   \<and> GMAIL_STATE (processNotification flakyRuntime openEnv notification50 (storedWorld (js ''40'')))
         (cursorKey mailbox) = Some (js ''40'')
   \<and> GMAIL_STATE (processNotification flakyRuntime openEnv notification50 (storedWorld (js ''40'')))
         (cursorKey mailbox) \<noteq> Some (historyId notification50)"
  by code_simp

text \<open>
  C4, as amended. Cursor store. The store is a map, and the key of a mailbox determines
  the mailbox, so it holds at most one cursor per mailbox. Processing a notification either
  leaves the store as it is or overwrites the cursor of the notification's mailbox with the
  cursor of the notification; the cursor of no other mailbox changes. The handler never
  compares cursors: the stored cursor does not decrease provided the cursor of the
  notification is not lower than the stored one.
\<close>

theorem cursor_store_update:
  "(GMAIL_STATE (processNotification rt env n w) = GMAIL_STATE w
      \<or> GMAIL_STATE (processNotification rt env n w)
           = (GMAIL_STATE w)(cursorKey (emailAddress n) \<mapsto> historyId n))
   \<and> (cursorKey a = cursorKey b \<longleftrightarrow> a = b)
   \<and> (a \<noteq> emailAddress n \<longrightarrow>
        GMAIL_STATE (processNotification rt env n w) (cursorKey a) = GMAIL_STATE w (cursorKey a))
   \<and> (GMAIL_STATE w (cursorKey (emailAddress n)) = Some c \<and> cursorValue c \<le> cursorValue (historyId n)
        \<longrightarrow> (\<exists>c'. GMAIL_STATE (processNotification rt env n w) (cursorKey (emailAddress n)) = Some c'
                  \<and> cursorValue c \<le> cursorValue c'))"
  using processNotification_kv[of rt env n w]
  by (auto simp: cursorKey_inj)

theorem cursor_store_update_witness:
  "js ''b@x.com'' \<noteq> emailAddress notification50
   \<and> GMAIL_STATE (storedWorld (js ''40'')) (cursorKey (emailAddress notification50)) = Some (js ''40'')
   \<and> cursorValue (js ''40'') \<le> cursorValue (historyId notification50)
   \<and> GMAIL_STATE (processNotification healthyRuntime openEnv notification50 (storedWorld (js ''40'')))
        (cursorKey (js ''b@x.com'')) = None
   \<and> (GMAIL_STATE (processNotification healthyRuntime openEnv notification50 (storedWorld (js ''40'')))
              (cursorKey (emailAddress notification50)) = Some (js ''40'')
        \<or> GMAIL_STATE (processNotification healthyRuntime openEnv notification50 (storedWorld (js ''40'')))
              (cursorKey (emailAddress notification50)) = Some (js ''50''))"
proof -
  have h0: "js ''b@x.com'' \<noteq> emailAddress notification50" by code_simp
  have h1: "GMAIL_STATE (storedWorld (js ''40'')) (cursorKey (emailAddress notification50)) = Some (js ''40'')"
    by (simp add: storedWorld_def notification50_def)
  have h2: "cursorValue (js ''40'') \<le> cursorValue (historyId notification50)" by code_simp
  have h3: "GMAIL_STATE (storedWorld (js ''40'')) (cursorKey (js ''b@x.com'')) = None" by code_simp
  have h4: "historyId notification50 = js ''50''" by (simp add: notification50_def)
  from cursor_store_update[of healthyRuntime openEnv notification50 "storedWorld (js ''40'')"
          "js ''b@x.com''" "js ''b@x.com''" "js ''40''"] h0 h1 h2 h3 h4
  show ?thesis by auto
qed

text \<open>
  C4 as stated fails. The stored cursor is 60, a notification with cursor 50 arrives and
  the history query finds nothing new: the handler stores 50, a lower cursor.
\<close>

theorem cursor_never_decreased_counterexample:
  "GMAIL_STATE (storedWorld (js ''60'')) (cursorKey mailbox) = Some (js ''60'')
   \<and> GMAIL_STATE (processNotification quietRuntime openEnv notification50 (storedWorld (js ''60'')))
        (cursorKey mailbox) = Some (js ''50'')
   \<and> cursorValue (js ''50'') < cursorValue (js ''60'')"
  by code_simp

section \<open>The history query\<close>

lemma queryHistory_unfold:
  "queryHistory rt env addr start w =
     (let t1 = firstToken rt env w;
          w1 = exchange (tokenRequest env) (status t1) w
      in if \<not> ok t1 then (Inl (TokenRefreshFailed (status t1) (bodyText t1)), w1)
         else
           (let r1 = firstHistory rt env addr start w;
                w2 = exchange (HistoryRequest addr start (bodyJson t1)) (status r1) w1
            in if status r1 = 401 then
                 (let t2 = secondToken rt env w;
                      w3 = exchange (tokenRequest env) (status t2) (consoleLog TokenExpired w2)
                  in if \<not> ok t2 then (Inl (TokenRefreshFailed (status t2) (bodyText t2)), w3)
                     else
                       (let r2 = secondHistory rt env addr start w;
                            w4 = exchange (HistoryRequest addr start (bodyJson t2)) (status r2) w3
                        in if \<not> ok r2 then (Inl (HistoryListFailed (status r2) (bodyText r2)), w4)
                           else (Inr (bodyJson t2, bodyJson r2), w4)))
               else if \<not> ok r1 then (Inl (HistoryListFailed (status r1) (bodyText r1)), w2)
               else (Inr (bodyJson t1, bodyJson r1), w2)))"
  by (simp add: queryHistory_def refreshAccessToken_def firstToken_def firstHistory_def
        secondToken_def secondHistory_def tokenRequest_def Let_def numeral_3_eq_3)

lemma processNotification_failed:
  assumes "GMAIL_STATE w (cursorKey (emailAddress n)) = Some c" and "c \<noteq> []"
    and "fst (fetchNewEmails rt env (emailAddress n) c
                (consoleLog (NewNotification (emailAddress n) (historyId n)) w)) = Inl e"
  shows "GMAIL_STATE (processNotification rt env n w) = GMAIL_STATE w
       \<and> hookAttempts (processNotification rt env n w) = hookAttempts w
       \<and> last (console (processNotification rt env n w)) = ErrorProcessing e"
proof -
  let ?v = "consoleLog (NewNotification (emailAddress n) (historyId n)) w"
  let ?f = "fetchNewEmails rt env (emailAddress n) c ?v"
  from assms(3) obtain w1 where f: "?f = (Inl e, w1)" by (cases ?f) auto
  then have "processNotification rt env n w = consoleLog (ErrorProcessing e) w1"
    by (simp add: processNotification_stored[OF assms(1,2)])
  with fetchNewEmails_frame[of rt env "emailAddress n" c ?v] f show ?thesis by simp
qed

lemma fetchNewEmails_requests:
  "map fst (exchanges (snd (fetchNewEmails rt env addr c w)))
     = map fst (exchanges (snd (queryHistory rt env addr c w)))
       @ (case fst (queryHistory rt env addr c w) of
            Inl e \<Rightarrow> []
          | Inr (tok, feed) \<Rightarrow>
              map (\<lambda>mid. MessageRequest addr mid tok)
                (requested rt addr tok (length (exchanges (snd (queryHistory rt env addr c w))))
                   (collectMessageIds feed)))"
proof (cases "queryHistory rt env addr c w")
  case (Pair res w1)
  show ?thesis
  proof (cases res)
    case (Inl e)
    with Pair show ?thesis by (simp add: fetchNewEmails_def)
  next
    case (Inr v)
    obtain tok feed where v: "v = (tok, feed)" by (cases v)
    show ?thesis
      using Pair Inr v
        fetchMessages_requests[of rt addr tok "collectMessageIds feed"
          "consoleLog (FoundMessages (length (collectMessageIds feed))) w1"]
      by (simp add: fetchNewEmails_def Let_def split_beta)
  qed
qed


text \<open>
  C6. Single authentication retry. Let the first token request of \<open>fetchNewEmails\<close> succeed.
  If the first history query is answered 401, then the next exchange is one more token
  request; if that fails its error is raised after these three exchanges; if it succeeds,
  the same history query (same mailbox, same start cursor) is sent once more with the new
  token, and nothing follows these four exchanges but the message requests of a successful
  second query, which are the requests for all added messages when none of them leaves the
  fetch loop with an error: a failure of the second query, a second 401 included, raises
  \<open>HistoryListFailed\<close> after exactly four exchanges. If the first history query fails with
  any other status, \<open>HistoryListFailed\<close> is raised after the token request and the one query:
  it is not retried. An error of \<open>fetchNewEmails\<close> is fatal for the notification: the handler
  logs it, delivers nothing and leaves the store as it was.
\<close>

theorem single_auth_retry:
  assumes "ok (firstToken rt env w)"
  shows "(status (firstHistory rt env addr start w) = 401 \<longrightarrow>
            take 3 (drop (length (exchanges w)) (map fst (exchanges (snd (fetchNewEmails rt env addr start w)))))
              = [tokenRequest env,
                 HistoryRequest addr start (bodyJson (firstToken rt env w)),
                 tokenRequest env])
       \<and> (status (firstHistory rt env addr start w) = 401 \<and> \<not> ok (secondToken rt env w) \<longrightarrow>
            fst (fetchNewEmails rt env addr start w)
              = Inl (TokenRefreshFailed (status (secondToken rt env w)) (bodyText (secondToken rt env w)))
          \<and> length (exchanges (snd (fetchNewEmails rt env addr start w))) = length (exchanges w) + 3)
       \<and> (status (firstHistory rt env addr start w) = 401 \<and> ok (secondToken rt env w) \<longrightarrow>
            map fst (exchanges (snd (fetchNewEmails rt env addr start w)))
              = map fst (exchanges w) @
                [tokenRequest env,
                 HistoryRequest addr start (bodyJson (firstToken rt env w)),
                 tokenRequest env,
                 HistoryRequest addr start (bodyJson (secondToken rt env w))]
                @ (if ok (secondHistory rt env addr start w)
                   then map (\<lambda>mid. MessageRequest addr mid (bodyJson (secondToken rt env w)))
                          (requested rt addr (bodyJson (secondToken rt env w)) (length (exchanges w) + 4)
                             (collectMessageIds (bodyJson (secondHistory rt env addr start w))))
                   else [])
          \<and> (answered rt addr (bodyJson (secondToken rt env w)) (length (exchanges w) + 4)
                 (collectMessageIds (bodyJson (secondHistory rt env addr start w))) \<longrightarrow>
               map fst (exchanges (snd (fetchNewEmails rt env addr start w)))
                 = map fst (exchanges w) @
                   [tokenRequest env,
                    HistoryRequest addr start (bodyJson (firstToken rt env w)),
                    tokenRequest env,
                    HistoryRequest addr start (bodyJson (secondToken rt env w))]
                   @ (if ok (secondHistory rt env addr start w)
                      then map (\<lambda>mid. MessageRequest addr mid (bodyJson (secondToken rt env w)))
                             (collectMessageIds (bodyJson (secondHistory rt env addr start w)))
                      else [])))
       \<and> (status (firstHistory rt env addr start w) = 401 \<and> ok (secondToken rt env w)
            \<and> \<not> ok (secondHistory rt env addr start w) \<longrightarrow>
            fst (fetchNewEmails rt env addr start w)
              = Inl (HistoryListFailed (status (secondHistory rt env addr start w))
                                       (bodyText (secondHistory rt env addr start w)))
          \<and> length (exchanges (snd (fetchNewEmails rt env addr start w))) = length (exchanges w) + 4)
       \<and> (status (firstHistory rt env addr start w) \<noteq> 401 \<and> \<not> ok (firstHistory rt env addr start w) \<longrightarrow>
            fst (fetchNewEmails rt env addr start w)
              = Inl (HistoryListFailed (status (firstHistory rt env addr start w))
                                       (bodyText (firstHistory rt env addr start w)))
          \<and> map fst (exchanges (snd (fetchNewEmails rt env addr start w)))
              = map fst (exchanges w) @
                [tokenRequest env, HistoryRequest addr start (bodyJson (firstToken rt env w))])
       \<and> (GMAIL_STATE w' (cursorKey (emailAddress n)) = Some c \<and> c \<noteq> []
            \<and> fst (fetchNewEmails rt env (emailAddress n) c
                      (consoleLog (NewNotification (emailAddress n) (historyId n)) w')) = Inl e \<longrightarrow>
            GMAIL_STATE (processNotification rt env n w') = GMAIL_STATE w'
          \<and> hookAttempts (processNotification rt env n w') = hookAttempts w'
          \<and> last (console (processNotification rt env n w')) = ErrorProcessing e)"
proof -
  let ?q = "queryHistory rt env addr start w"
  let ?f = "fetchNewEmails rt env addr start w"
  have fail: "\<And>e. fst ?q = Inl e \<Longrightarrow> ?f = (Inl e, snd ?q)"
    using fetchNewEmails_failed[of rt env addr start w] by (metis prod.collapse)
  note rq = fetchNewEmails_requests[of rt env addr start w]
  have a: "status (firstHistory rt env addr start w) = 401 \<and> \<not> ok (secondToken rt env w) \<Longrightarrow>
             fst ?q = Inl (TokenRefreshFailed (status (secondToken rt env w)) (bodyText (secondToken rt env w)))
           \<and> map fst (exchanges (snd ?q)) = map fst (exchanges w) @
                [tokenRequest env, HistoryRequest addr start (bodyJson (firstToken rt env w)), tokenRequest env]"
    using assms by (simp add: queryHistory_unfold Let_def)
  have b: "status (firstHistory rt env addr start w) = 401 \<and> ok (secondToken rt env w) \<Longrightarrow>
             map fst (exchanges (snd ?q)) = map fst (exchanges w) @
                [tokenRequest env, HistoryRequest addr start (bodyJson (firstToken rt env w)),
                 tokenRequest env, HistoryRequest addr start (bodyJson (secondToken rt env w))]
           \<and> (\<not> ok (secondHistory rt env addr start w) \<longrightarrow>
                fst ?q = Inl (HistoryListFailed (status (secondHistory rt env addr start w))
                                       (bodyText (secondHistory rt env addr start w))))"
    using assms by (simp add: queryHistory_unfold Let_def)
  have b2: "status (firstHistory rt env addr start w) = 401 \<and> ok (secondToken rt env w) \<Longrightarrow>
            map fst (exchanges (snd ?f))
              = map fst (exchanges w) @
                [tokenRequest env,
                 HistoryRequest addr start (bodyJson (firstToken rt env w)),
                 tokenRequest env,
                 HistoryRequest addr start (bodyJson (secondToken rt env w))]
                @ (if ok (secondHistory rt env addr start w)
                   then map (\<lambda>mid. MessageRequest addr mid (bodyJson (secondToken rt env w)))
                          (requested rt addr (bodyJson (secondToken rt env w)) (length (exchanges w) + 4)
                             (collectMessageIds (bodyJson (secondHistory rt env addr start w))))
                   else [])"
    using assms unfolding fetchNewEmails_requests[of rt env addr start w]
    by (simp add: queryHistory_unfold Let_def eval_nat_numeral)
  have b3: "status (firstHistory rt env addr start w) = 401 \<and> ok (secondToken rt env w) \<Longrightarrow>
            answered rt addr (bodyJson (secondToken rt env w)) (length (exchanges w) + 4)
                 (collectMessageIds (bodyJson (secondHistory rt env addr start w))) \<Longrightarrow>
            map fst (exchanges (snd ?f))
              = map fst (exchanges w) @
                [tokenRequest env,
                 HistoryRequest addr start (bodyJson (firstToken rt env w)),
                 tokenRequest env,
                 HistoryRequest addr start (bodyJson (secondToken rt env w))]
                @ (if ok (secondHistory rt env addr start w)
                   then map (\<lambda>mid. MessageRequest addr mid (bodyJson (secondToken rt env w)))
                          (collectMessageIds (bodyJson (secondHistory rt env addr start w)))
                   else [])"
    using b2 by (simp add: requested_answered)
  have c: "status (firstHistory rt env addr start w) \<noteq> 401 \<and> \<not> ok (firstHistory rt env addr start w) \<Longrightarrow>
             fst ?q = Inl (HistoryListFailed (status (firstHistory rt env addr start w))
                                       (bodyText (firstHistory rt env addr start w)))
           \<and> map fst (exchanges (snd ?q)) = map fst (exchanges w) @
                [tokenRequest env, HistoryRequest addr start (bodyJson (firstToken rt env w))]"
    using assms by (simp add: queryHistory_unfold Let_def)
  have pre: "take 3 (drop (length (exchanges w)) (map fst (exchanges (snd ?f))))
              = [tokenRequest env, HistoryRequest addr start (bodyJson (firstToken rt env w)), tokenRequest env]"
    if "status (firstHistory rt env addr start w) = 401"
  proof (cases "ok (secondToken rt env w)")
    case False
    with a that show ?thesis unfolding rq by simp
  next
    case True
    with b that show ?thesis unfolding rq by simp
  qed
  have len: "length (exchanges w1) = length (exchanges w) + length xs"
    if "map fst (exchanges w1) = map fst (exchanges w) @ xs" for w1 xs
    using arg_cong[OF that, of length] by simp
  have a': "status (firstHistory rt env addr start w) = 401 \<and> \<not> ok (secondToken rt env w) \<Longrightarrow>
            fst ?f = Inl (TokenRefreshFailed (status (secondToken rt env w)) (bodyText (secondToken rt env w)))
          \<and> length (exchanges (snd ?f)) = length (exchanges w) + 3"
    using a fail[of "TokenRefreshFailed (status (secondToken rt env w)) (bodyText (secondToken rt env w))"]
    by (auto dest: len)
  have b': "status (firstHistory rt env addr start w) = 401 \<and> ok (secondToken rt env w)
            \<and> \<not> ok (secondHistory rt env addr start w) \<Longrightarrow>
            fst ?f = Inl (HistoryListFailed (status (secondHistory rt env addr start w))
                                       (bodyText (secondHistory rt env addr start w)))
          \<and> length (exchanges (snd ?f)) = length (exchanges w) + 4"
    using b fail[of "HistoryListFailed (status (secondHistory rt env addr start w))
                                       (bodyText (secondHistory rt env addr start w))"]
    by (auto dest: len)
  have c': "status (firstHistory rt env addr start w) \<noteq> 401 \<and> \<not> ok (firstHistory rt env addr start w) \<Longrightarrow>
            fst ?f = Inl (HistoryListFailed (status (firstHistory rt env addr start w))
                                       (bodyText (firstHistory rt env addr start w)))
          \<and> map fst (exchanges (snd ?f))
              = map fst (exchanges w) @
                [tokenRequest env, HistoryRequest addr start (bodyJson (firstToken rt env w))]"
    using c fail[of "HistoryListFailed (status (firstHistory rt env addr start w))
                                       (bodyText (firstHistory rt env addr start w))"]
    by simp
  have d: "GMAIL_STATE w' (cursorKey (emailAddress n)) = Some c \<and> c \<noteq> []
            \<and> fst (fetchNewEmails rt env (emailAddress n) c
                      (consoleLog (NewNotification (emailAddress n) (historyId n)) w')) = Inl e \<Longrightarrow>
            GMAIL_STATE (processNotification rt env n w') = GMAIL_STATE w'
          \<and> hookAttempts (processNotification rt env n w') = hookAttempts w'
          \<and> last (console (processNotification rt env n w')) = ErrorProcessing e"
    using processNotification_failed[of w' n c rt env e] by simp
  from pre a' b2 b3 b' c' d show ?thesis by blast
qed

theorem single_auth_retry_witness:
  "ok (firstToken refreshedRuntime openEnv emptyWorld)
   \<and> status (firstHistory refreshedRuntime openEnv mailbox (js ''40'') emptyWorld) = 401
   \<and> ok (secondToken refreshedRuntime openEnv emptyWorld)
   \<and> ok (secondHistory refreshedRuntime openEnv mailbox (js ''40'') emptyWorld)
   \<and> answered refreshedRuntime mailbox (js ''token2'') 4 [js ''m1'', js ''m2'']
   \<and> fst (fetchNewEmails refreshedRuntime openEnv mailbox (js ''40'') emptyWorld)
       = Inr [mailOf (js ''m1''), mailOf (js ''m2'')]
   \<and> map fst (exchanges (snd (fetchNewEmails refreshedRuntime openEnv mailbox (js ''40'') emptyWorld)))
       = [tokenRequest openEnv, HistoryRequest mailbox (js ''40'') (js ''token0''),
          tokenRequest openEnv, HistoryRequest mailbox (js ''40'') (js ''token2''),
          MessageRequest mailbox (js ''m1'') (js ''token2''),
          MessageRequest mailbox (js ''m2'') (js ''token2'')]
   \<and> ok (firstToken expiredRuntime openEnv emptyWorld)
   \<and> status (firstHistory expiredRuntime openEnv mailbox (js ''40'') emptyWorld) = 401
   \<and> ok (secondToken expiredRuntime openEnv emptyWorld)
   \<and> \<not> ok (secondHistory expiredRuntime openEnv mailbox (js ''40'') emptyWorld)
   \<and> fst (fetchNewEmails expiredRuntime openEnv mailbox (js ''40'') emptyWorld) = Inl (HistoryListFailed 401 [])
   \<and> map fst (exchanges (snd (fetchNewEmails expiredRuntime openEnv mailbox (js ''40'') emptyWorld)))
       = [tokenRequest openEnv, HistoryRequest mailbox (js ''40'') (js ''token0''),
          tokenRequest openEnv, HistoryRequest mailbox (js ''40'') (js ''token2'')]
   \<and> ok (firstToken brokenRuntime openEnv emptyWorld)
   \<and> status (firstHistory brokenRuntime openEnv mailbox (js ''40'') emptyWorld) \<noteq> 401
   \<and> \<not> ok (firstHistory brokenRuntime openEnv mailbox (js ''40'') emptyWorld)
   \<and> fst (fetchNewEmails brokenRuntime openEnv mailbox (js ''40'') emptyWorld) = Inl (HistoryListFailed 500 [])
   \<and> map fst (exchanges (snd (fetchNewEmails brokenRuntime openEnv mailbox (js ''40'') emptyWorld)))
       = [tokenRequest openEnv, HistoryRequest mailbox (js ''40'') (js ''token0'')]
   \<and> GMAIL_STATE (storedWorld (js ''40'')) (cursorKey (emailAddress notification50)) = Some (js ''40'')
   \<and> GMAIL_STATE (processNotification expiredRuntime openEnv notification50 (storedWorld (js ''40'')))
        (cursorKey mailbox) = Some (js ''40'')
   \<and> hookAttempts (processNotification expiredRuntime openEnv notification50 (storedWorld (js ''40''))) = []"
proof -
  have r1: "ok (firstToken refreshedRuntime openEnv emptyWorld)" by code_simp
  have r2: "status (firstHistory refreshedRuntime openEnv mailbox (js ''40'') emptyWorld) = 401" by code_simp
  have r3: "ok (secondToken refreshedRuntime openEnv emptyWorld)" by code_simp
  have r4: "ok (secondHistory refreshedRuntime openEnv mailbox (js ''40'') emptyWorld)" by code_simp
  have r5: "answered refreshedRuntime mailbox (js ''token2'') 4 [js ''m1'', js ''m2'']" by code_simp
  have r6: "fst (fetchNewEmails refreshedRuntime openEnv mailbox (js ''40'') emptyWorld)
              = Inr [mailOf (js ''m1''), mailOf (js ''m2'')]" by code_simp
  have rvals: "bodyJson (firstToken refreshedRuntime openEnv emptyWorld) = js ''token0''"
    "bodyJson (secondToken refreshedRuntime openEnv emptyWorld) = js ''token2''"
    "collectMessageIds (bodyJson (secondHistory refreshedRuntime openEnv mailbox (js ''40'') emptyWorld))
       = [js ''m1'', js ''m2'']"
    by code_simp+
  have e1: "ok (firstToken expiredRuntime openEnv emptyWorld)" by code_simp
  have e2: "status (firstHistory expiredRuntime openEnv mailbox (js ''40'') emptyWorld) = 401" by code_simp
  have e3: "ok (secondToken expiredRuntime openEnv emptyWorld)" by code_simp
  have e4: "\<not> ok (secondHistory expiredRuntime openEnv mailbox (js ''40'') emptyWorld)" by code_simp
  have b1: "ok (firstToken brokenRuntime openEnv emptyWorld)" by code_simp
  have b2: "status (firstHistory brokenRuntime openEnv mailbox (js ''40'') emptyWorld) \<noteq> 401" by code_simp
  have b3: "\<not> ok (firstHistory brokenRuntime openEnv mailbox (js ''40'') emptyWorld)" by code_simp
  have h1: "GMAIL_STATE (storedWorld (js ''40'')) (cursorKey (emailAddress notification50)) = Some (js ''40'')"
    by (simp add: storedWorld_def notification50_def)
  have h2: "js ''40'' \<noteq> []" by (simp add: js_def)
  have h3: "fst (fetchNewEmails expiredRuntime openEnv (emailAddress notification50) (js ''40'')
                   (consoleLog (NewNotification (emailAddress notification50) (historyId notification50))
                      (storedWorld (js ''40'')))) = Inl (HistoryListFailed 401 [])"
    by code_simp
  have vals: "status (secondHistory expiredRuntime openEnv mailbox (js ''40'') emptyWorld) = 401"
    "bodyText (secondHistory expiredRuntime openEnv mailbox (js ''40'') emptyWorld) = []"
    "bodyJson (firstToken expiredRuntime openEnv emptyWorld) = js ''token0''"
    "bodyJson (secondToken expiredRuntime openEnv emptyWorld) = js ''token2''"
    "status (firstHistory brokenRuntime openEnv mailbox (js ''40'') emptyWorld) = 500"
    "bodyText (firstHistory brokenRuntime openEnv mailbox (js ''40'') emptyWorld) = []"
    "bodyJson (firstToken brokenRuntime openEnv emptyWorld) = js ''token0''"
    "exchanges emptyWorld = []" "hookAttempts (storedWorld (js ''40'')) = []"
    by code_simp+
  from single_auth_retry[OF e1, of mailbox "js ''40''" "storedWorld (js ''40'')" notification50
          "js ''40''" "HistoryListFailed 401 []"]
       single_auth_retry[OF b1, of mailbox "js ''40''"]
       single_auth_retry[OF r1, of mailbox "js ''40''"]
       r1 r2 r3 r4 r5 r6 rvals e1 e2 e3 e4 b1 b2 b3 h1 h2 h3 vals
  show ?thesis by (simp add: notification50_def)
qed

section \<open>Skipped messages\<close>

lemma fetched_skip:
  assumes "j < length mids" and "stepMails rt addr tok (k + j) (mids ! j) = []"
  shows "fetched rt addr tok k mids
           = fetched rt addr tok k (take j mids) @ fetched rt addr tok (k + Suc j) (drop (Suc j) mids)"
proof -
  have "mids = take j mids @ mids ! j # drop (Suc j) mids"
    using assms(1) by (simp add: id_take_nth_drop)
  then have "fetched rt addr tok k mids
               = fetched rt addr tok k (take j mids @ mids ! j # drop (Suc j) mids)"
    by simp
  also have "\<dots> = fetched rt addr tok k (take j mids)
                  @ fetched rt addr tok (k + j) (mids ! j # drop (Suc j) mids)"
    using assms(1) by (simp add: fetched_append)
  also have "fetched rt addr tok (k + j) (mids ! j # drop (Suc j) mids)
               = fetched rt addr tok (k + Suc j) (drop (Suc j) mids)"
    using assms(2) by simp
  finally show ?thesis .
qed

lemma fetched_skip_length:
  assumes "j < length mids" and "stepMails rt addr tok (k + j) (mids ! j) = []"
  shows "length (fetched rt addr tok k mids) < length mids"
proof -
  have "length (fetched rt addr tok k (take j mids)) \<le> j"
    using fetched_length[of rt addr tok k "take j mids"] assms(1) by simp
  moreover have "length (fetched rt addr tok (k + Suc j) (drop (Suc j) mids)) \<le> length mids - Suc j"
    using fetched_length[of rt addr tok "k + Suc j" "drop (Suc j) mids"] by simp
  ultimately show ?thesis
    using assms(1) by (simp add: fetched_skip[OF assms])
qed

lemma fetchMessages_snd_Cons:
  "stepError rt addr tok (length (exchanges w)) mid = None \<Longrightarrow>
     snd (fetchMessages rt addr tok (mid # mids) w)
       = snd (fetchMessages rt addr tok mids (stepWorld rt addr tok mid w))"
  by (simp add: fetchMessages_Cons split_beta del: fetchMessages.simps split: sum.split)

lemma fetchMessages_logs:
  assumes "answered rt addr tok (length (exchanges w)) mids" and "j < length mids"
    and "\<And>v::World. length (exchanges v) = length (exchanges w) + j
           \<Longrightarrow> l \<in> set (console (stepWorld rt addr tok (mids ! j) v))"
  shows "l \<in> set (console (snd (fetchMessages rt addr tok mids w)))"
  using assms
proof (induction mids arbitrary: j w)
  case Nil
  then show ?case by simp
next
  case (Cons mid mids)
  from Cons.prems(1) have ne: "stepError rt addr tok (length (exchanges w)) mid = None"
    and an: "answered rt addr tok (length (exchanges (stepWorld rt addr tok mid w))) mids"
    by simp_all
  note sn = fetchMessages_snd_Cons[OF ne, of mids]
  show ?case
  proof (cases j)
    case 0
    with Cons.prems(3)[of w] have "l \<in> set (console (stepWorld rt addr tok mid w))" by simp
    with fetchMessages_console_mono[of "stepWorld rt addr tok mid w" rt addr tok mids]
    show ?thesis unfolding sn by blast
  next
    case (Suc i)
    with Cons.prems(2) have i: "i < length mids" by simp
    have "l \<in> set (console (snd (fetchMessages rt addr tok mids (stepWorld rt addr tok mid w))))"
    proof (rule Cons.IH[OF an i])
      fix v :: World
      assume "length (exchanges v) = length (exchanges (stepWorld rt addr tok mid w)) + i"
      then have "length (exchanges v) = length (exchanges w) + j" using Suc by simp
      from Cons.prems(3)[OF this] Suc
      show "l \<in> set (console (stepWorld rt addr tok (mids ! i) v))" by simp
    qed
    then show ?thesis unfolding sn .
  qed
qed

lemma fetchMessages_logs_failure:
  assumes "answered rt addr tok (length (exchanges w)) mids" and "j < length mids"
    and "messagesGet rt (length (exchanges w) + j) addr (mids ! j) tok = Some r" and "\<not> ok r"
  shows "FetchFailed (mids ! j) (status r) \<in> set (console (snd (fetchMessages rt addr tok mids w)))"
  using assms(3,4) by (intro fetchMessages_logs[OF assms(1,2)]) (simp add: stepWorld_def)

lemma fetchMessages_logs_noraw:
  assumes "answered rt addr tok (length (exchanges w)) mids" and "j < length mids"
    and "messagesGet rt (length (exchanges w) + j) addr (mids ! j) tok = Some r" and "ok r"
    and "bodyJson r = Some msg" and "\<not> truthy (raw msg)"
  shows "NoRawData (mids ! j) \<in> set (console (snd (fetchMessages rt addr tok mids w)))"
  using assms(3-6) by (intro fetchMessages_logs[OF assms(1,2)]) (simp add: stepWorld_def)

lemma stepMails_failure:
  "messagesGet rt k addr mid tok = Some r \<Longrightarrow> \<not> ok r \<Longrightarrow>
     stepMails rt addr tok k mid = [] \<and> stepError rt addr tok k mid = None"
  by (simp add: stepMails_def stepError_def)

lemma stepMails_noraw:
  "messagesGet rt k addr mid tok = Some r \<Longrightarrow> ok r \<Longrightarrow> bodyJson r = Some msg \<Longrightarrow> \<not> truthy (raw msg) \<Longrightarrow>
     stepMails rt addr tok k mid = [] \<and> stepError rt addr tok k mid = None"
  by (cases "raw msg") (auto simp: stepMails_def stepError_def)

lemma step_cong:
  assumes "messagesGet rt2 k addr mid tok = messagesGet rt k addr mid tok"
    and "parseMessage rt2 = parseMessage rt"
  shows "stepError rt2 addr tok k mid = stepError rt addr tok k mid
       \<and> stepMails rt2 addr tok k mid = stepMails rt addr tok k mid"
  unfolding stepError_def stepMails_def assms by simp

lemma fetchMessages_cong:
  assumes "length (exchanges w2) = length (exchanges w)"
    and "\<forall>i<length mids.
           stepError rt2 addr tok (length (exchanges w) + i) (mids ! i)
             = stepError rt addr tok (length (exchanges w) + i) (mids ! i)
         \<and> stepMails rt2 addr tok (length (exchanges w) + i) (mids ! i)
             = stepMails rt addr tok (length (exchanges w) + i) (mids ! i)"
  shows "fst (fetchMessages rt2 addr tok mids w2) = fst (fetchMessages rt addr tok mids w)"
  using assms
proof (induction mids arbitrary: w w2)
  case Nil
  show ?case by simp
next
  case (Cons mid mids)
  from Cons.prems(2) have h0:
    "stepError rt2 addr tok (length (exchanges w)) mid = stepError rt addr tok (length (exchanges w)) mid"
    "stepMails rt2 addr tok (length (exchanges w)) mid = stepMails rt addr tok (length (exchanges w)) mid"
    by auto
  have l: "length (exchanges (stepWorld rt2 addr tok mid w2)) = length (exchanges (stepWorld rt addr tok mid w))"
    using Cons.prems(1) by simp
  have "\<forall>i<length mids.
           stepError rt2 addr tok (length (exchanges (stepWorld rt addr tok mid w)) + i) (mids ! i)
             = stepError rt addr tok (length (exchanges (stepWorld rt addr tok mid w)) + i) (mids ! i)
         \<and> stepMails rt2 addr tok (length (exchanges (stepWorld rt addr tok mid w)) + i) (mids ! i)
             = stepMails rt addr tok (length (exchanges (stepWorld rt addr tok mid w)) + i) (mids ! i)"
  proof (intro allI impI)
    fix i assume "i < length mids"
    then have "Suc i < length (mid # mids)" by simp
    from Cons.prems(2)[rule_format, OF this]
    show "stepError rt2 addr tok (length (exchanges (stepWorld rt addr tok mid w)) + i) (mids ! i)
             = stepError rt addr tok (length (exchanges (stepWorld rt addr tok mid w)) + i) (mids ! i)
         \<and> stepMails rt2 addr tok (length (exchanges (stepWorld rt addr tok mid w)) + i) (mids ! i)
             = stepMails rt addr tok (length (exchanges (stepWorld rt addr tok mid w)) + i) (mids ! i)"
      by simp
  qed
  from Cons.IH[OF l this]
  have ih: "fst (fetchMessages rt2 addr tok mids (stepWorld rt2 addr tok mid w2))
              = fst (fetchMessages rt addr tok mids (stepWorld rt addr tok mid w))" .
  show ?case
    using h0 ih Cons.prems(1)
    by (simp add: fetchMessages_Cons split_beta del: fetchMessages.simps split: option.split sum.split)
qed


text \<open>
  C7, as amended. Fetch-skip containment. Let the fetch loop run over the identifiers
  \<open>mids\<close>, let the request for the identifier at position \<open>j\<close> be answered with a failure
  status, and let no request leave the loop with an error. Then every identifier is
  requested, in order; the loop returns exactly the messages that are fetched with a success
  status and a raw content, which is what the answers give for the identifiers before \<open>j\<close>
  followed by what they give for the ones after \<open>j\<close>; the omission is logged with the
  identifier and the status; and the result is shorter than the identifier list. In the
  handler, when the stored cursor is non-empty, the history query succeeds and every
  hand-over is accepted, the other messages that pass the filter are delivered and the
  cursor advances to the cursor of the notification.
\<close>

theorem fetch_skip_containment:
  assumes "j < length mids"
    and "messagesGet rt (length (exchanges w) + j) addr (mids ! j) tok = Some r"
    and "\<not> ok r"
    and "answered rt addr tok (length (exchanges w)) mids"
  shows "map fst (exchanges (snd (fetchMessages rt addr tok mids w)))
           = map fst (exchanges w) @ map (\<lambda>mid. MessageRequest addr mid tok) mids
       \<and> fst (fetchMessages rt addr tok mids w) = Inr (fetched rt addr tok (length (exchanges w)) mids)
       \<and> fetched rt addr tok (length (exchanges w)) mids
           = fetched rt addr tok (length (exchanges w)) (take j mids)
             @ fetched rt addr tok (length (exchanges w) + Suc j) (drop (Suc j) mids)
       \<and> FetchFailed (mids ! j) (status r) \<in> set (console (snd (fetchMessages rt addr tok mids w)))
       \<and> length (fetched rt addr tok (length (exchanges w)) mids) < length mids
       \<and> (GMAIL_STATE w0 (cursorKey (emailAddress n)) = Some c1 \<and> c1 \<noteq> []
            \<and> queryHistory rt env (emailAddress n) c1
                 (consoleLog (NewNotification (emailAddress n) (historyId n)) w0) = (Inr (tok, feed), w)
            \<and> addr = emailAddress n \<and> mids = collectMessageIds feed
            \<and> (\<forall>i<length (passing rt env
                             (fetched rt addr tok (length (exchanges w)) (take j mids)
                              @ fetched rt addr tok (length (exchanges w) + Suc j) (drop (Suc j) mids))).
                  ok (deliveryAnswer rt env (length (exchanges w) + length mids)
                        (passing rt env
                           (fetched rt addr tok (length (exchanges w)) (take j mids)
                            @ fetched rt addr tok (length (exchanges w) + Suc j) (drop (Suc j) mids))) i))
          \<longrightarrow> delivered (processNotification rt env n w0)
                 = delivered w0 @ map transformToOpenClaw
                     (passing rt env
                        (fetched rt addr tok (length (exchanges w)) (take j mids)
                         @ fetched rt addr tok (length (exchanges w) + Suc j) (drop (Suc j) mids)))
              \<and> GMAIL_STATE (processNotification rt env n w0)
                 = (GMAIL_STATE w0)(cursorKey (emailAddress n) \<mapsto> historyId n))"
proof -
  let ?k = "length (exchanges w)"
  let ?rest = "fetched rt addr tok ?k (take j mids) @ fetched rt addr tok (?k + Suc j) (drop (Suc j) mids)"
  have nk: "stepMails rt addr tok (?k + j) (mids ! j) = []"
    using stepMails_failure[OF assms(2,3)] by simp
  note sk = fetched_skip[OF assms(1) nk]
  have hd: "delivered (processNotification rt env n w0)
                 = delivered w0 @ map transformToOpenClaw (passing rt env ?rest)
              \<and> GMAIL_STATE (processNotification rt env n w0)
                 = (GMAIL_STATE w0)(cursorKey (emailAddress n) \<mapsto> historyId n)"
    if h: "GMAIL_STATE w0 (cursorKey (emailAddress n)) = Some c1" "c1 \<noteq> []"
          "queryHistory rt env (emailAddress n) c1
                 (consoleLog (NewNotification (emailAddress n) (historyId n)) w0) = (Inr (tok, feed), w)"
          "addr = emailAddress n" "mids = collectMessageIds feed"
          "\<forall>i<length (passing rt env ?rest).
              ok (deliveryAnswer rt env (?k + length mids) (passing rt env ?rest) i)"
  proof -
    have a: "answered rt (emailAddress n) tok ?k (collectMessageIds feed)"
      using assms(4) h(4,5) by simp
    have e: "fetched rt (emailAddress n) tok ?k (collectMessageIds feed) = ?rest"
      using sk h(4,5) by simp
    have d: "\<forall>i<length (passing rt env (fetched rt (emailAddress n) tok ?k (collectMessageIds feed))).
               ok (deliveryAnswer rt env (?k + length (collectMessageIds feed))
                     (passing rt env (fetched rt (emailAddress n) tok ?k (collectMessageIds feed))) i)"
      unfolding e using h(6) h(5) by simp
    from processNotification_resolved[OF h(1,2,3) a d] show ?thesis unfolding e by simp
  qed
  have rq: "map fst (exchanges (snd (fetchMessages rt addr tok mids w)))
           = map fst (exchanges w) @ map (\<lambda>mid. MessageRequest addr mid tok) mids"
    using fetchMessages_requests[of rt addr tok mids w] requested_answered[OF assms(4)] by simp
  have hd': "GMAIL_STATE w0 (cursorKey (emailAddress n)) = Some c1 \<and> c1 \<noteq> []
            \<and> queryHistory rt env (emailAddress n) c1
                 (consoleLog (NewNotification (emailAddress n) (historyId n)) w0) = (Inr (tok, feed), w)
            \<and> addr = emailAddress n \<and> mids = collectMessageIds feed
            \<and> (\<forall>i<length (passing rt env ?rest).
                  ok (deliveryAnswer rt env (?k + length mids) (passing rt env ?rest) i))
          \<longrightarrow> delivered (processNotification rt env n w0)
                 = delivered w0 @ map transformToOpenClaw (passing rt env ?rest)
              \<and> GMAIL_STATE (processNotification rt env n w0)
                 = (GMAIL_STATE w0)(cursorKey (emailAddress n) \<mapsto> historyId n)"
    by (intro impI, elim conjE, rule hd)
  from rq fetchMessages_answered[OF assms(4)] sk
    fetchMessages_logs_failure[OF assms(4,1,2,3)] fetched_skip_length[OF assms(1) nk] hd'
  show ?thesis by (intro conjI)
qed

theorem fetch_skip_containment_witness:
  "(1::nat) < length [js ''m1'', js ''m2'', js ''m3'']
   \<and> status (the (messagesGet lossyRuntime 3 mailbox ([js ''m1'', js ''m2'', js ''m3''] ! 1) (js ''token0''))) = 404
   \<and> answered lossyRuntime mailbox (js ''token0'') 2 [js ''m1'', js ''m2'', js ''m3'']
   \<and> length (exchanges (snd (queryHistory lossyRuntime openEnv mailbox (js ''40'')
                  (consoleLog (NewNotification mailbox (js ''50'')) (storedWorld (js ''40'')))))) = 2
   \<and> fst (fetchMessages lossyRuntime mailbox (js ''token0'') [js ''m1'', js ''m2'', js ''m3'']
            (snd (queryHistory lossyRuntime openEnv mailbox (js ''40'')
                  (consoleLog (NewNotification mailbox (js ''50'')) (storedWorld (js ''40''))))))
       = Inr [mailOf (js ''m1''), mailOf (js ''m3'')]
   \<and> FetchFailed (js ''m2'') 404
       \<in> set (console (snd (fetchMessages lossyRuntime mailbox (js ''token0'') [js ''m1'', js ''m2'', js ''m3'']
            (snd (queryHistory lossyRuntime openEnv mailbox (js ''40'')
                  (consoleLog (NewNotification mailbox (js ''50'')) (storedWorld (js ''40''))))))))
   \<and> delivered (processNotification lossyRuntime openEnv notification50 (storedWorld (js ''40'')))
       = [transformToOpenClaw (mailOf (js ''m1'')), transformToOpenClaw (mailOf (js ''m3''))]
   \<and> GMAIL_STATE (processNotification lossyRuntime openEnv notification50 (storedWorld (js ''40'')))
        (cursorKey mailbox) = Some (js ''50'')"
proof -
  let ?v = "consoleLog (NewNotification mailbox (js ''50'')) (storedWorld (js ''40''))"
  let ?q = "queryHistory lossyRuntime openEnv mailbox (js ''40'') ?v"
  let ?mids = "[js ''m1'', js ''m2'', js ''m3'']"
  let ?r = "\<lparr>status = 404, bodyText = [],
             bodyJson = Some \<lparr>fetched_id = js ''m2'', raw = Some (js ''m2''), fetched_threadId = js ''m2'',
                               labelIds = None, providerSnippet = None\<rparr>\<rparr>"
  have len: "length (exchanges (snd ?q)) = 2" by code_simp
  have j: "(1::nat) < length ?mids" by simp
  have g: "messagesGet lossyRuntime (length (exchanges (snd ?q)) + 1) mailbox (?mids ! 1) (js ''token0'') = Some ?r"
    unfolding len by code_simp
  have nok: "\<not> ok ?r" by (simp add: ok_def)
  have an: "answered lossyRuntime mailbox (js ''token0'') (length (exchanges (snd ?q))) ?mids"
    unfolding len by code_simp
  have h1: "GMAIL_STATE (storedWorld (js ''40'')) (cursorKey (emailAddress notification50)) = Some (js ''40'')"
    by (simp add: storedWorld_def notification50_def)
  have h2: "js ''40'' \<noteq> []" by (simp add: js_def)
  have "fst ?q = Inr (js ''token0'', feedOf ?mids)" by code_simp
  then have h3: "queryHistory lossyRuntime openEnv (emailAddress notification50) (js ''40'')
          (consoleLog (NewNotification (emailAddress notification50) (historyId notification50))
             (storedWorld (js ''40''))) = (Inr (js ''token0'', feedOf ?mids), snd ?q)"
    by (simp add: notification50_def prod_eq_iff)
  have h4: "mailbox = emailAddress notification50" by (simp add: notification50_def)
  have h5: "?mids = collectMessageIds (feedOf ?mids)" by code_simp
  have ev: "fetched lossyRuntime mailbox (js ''token0'') (length (exchanges (snd ?q))) (take 1 ?mids)
            @ fetched lossyRuntime mailbox (js ''token0'') (length (exchanges (snd ?q)) + Suc 1) (drop (Suc 1) ?mids)
            = [mailOf (js ''m1''), mailOf (js ''m3'')]"
    unfolding len by code_simp
  have al: "passing lossyRuntime openEnv [mailOf (js ''m1''), mailOf (js ''m3'')]
              = [mailOf (js ''m1''), mailOf (js ''m3'')]"
    by code_simp
  have h6: "\<forall>i<length (passing lossyRuntime openEnv
                (fetched lossyRuntime mailbox (js ''token0'') (length (exchanges (snd ?q))) (take 1 ?mids)
                 @ fetched lossyRuntime mailbox (js ''token0'') (length (exchanges (snd ?q)) + Suc 1)
                     (drop (Suc 1) ?mids))).
              ok (deliveryAnswer lossyRuntime openEnv (length (exchanges (snd ?q)) + length ?mids)
                    (passing lossyRuntime openEnv
                       (fetched lossyRuntime mailbox (js ''token0'') (length (exchanges (snd ?q))) (take 1 ?mids)
                        @ fetched lossyRuntime mailbox (js ''token0'') (length (exchanges (snd ?q)) + Suc 1)
                            (drop (Suc 1) ?mids))) i)"
    by (simp add: deliveryAnswer_def lossyRuntime_def scriptedRuntime_def ok_def)
  have d0: "delivered (storedWorld (js ''40'')) = []" by (simp add: storedWorld_def delivered_def)
  have s: "status (the (messagesGet lossyRuntime 3 mailbox (?mids ! 1) (js ''token0''))) = 404"
    by code_simp
  from fetch_skip_containment[OF j g nok an, of "storedWorld (js ''40'')" notification50 "js ''40''" openEnv
         "feedOf ?mids"] h1 h2 h3 h4 h5 h6
  have "fst (fetchMessages lossyRuntime mailbox (js ''token0'') ?mids (snd ?q))
          = Inr (fetched lossyRuntime mailbox (js ''token0'') (length (exchanges (snd ?q))) (take 1 ?mids)
            @ fetched lossyRuntime mailbox (js ''token0'') (length (exchanges (snd ?q)) + Suc 1) (drop (Suc 1) ?mids))"
    and "FetchFailed (?mids ! 1) (status ?r)
           \<in> set (console (snd (fetchMessages lossyRuntime mailbox (js ''token0'') ?mids (snd ?q))))"
    and "delivered (processNotification lossyRuntime openEnv notification50 (storedWorld (js ''40'')))
          = delivered (storedWorld (js ''40'')) @ map transformToOpenClaw
              (passing lossyRuntime openEnv
                 (fetched lossyRuntime mailbox (js ''token0'') (length (exchanges (snd ?q))) (take 1 ?mids)
                  @ fetched lossyRuntime mailbox (js ''token0'') (length (exchanges (snd ?q)) + Suc 1) (drop (Suc 1) ?mids)))"
    and "GMAIL_STATE (processNotification lossyRuntime openEnv notification50 (storedWorld (js ''40'')))
          = (GMAIL_STATE (storedWorld (js ''40'')))(cursorKey (emailAddress notification50) \<mapsto> historyId notification50)"
    by simp_all
  with j s an[unfolded len] len ev al d0 show ?thesis
    by (simp add: notification50_def)
qed

text \<open>
  C7 as stated fails, in two ways. First, the request for \<open>m2\<close> gets no answer: the fetch
  loop leaves with that error, \<open>fetchNewEmails\<close> raises, \<open>m3\<close> is never requested, \<open>m1\<close> and
  \<open>m3\<close> are not delivered although the downstream endpoint accepts everything, and the
  cursor stays 40. Second, the request for \<open>m2\<close> is answered 404, \<open>m1\<close> and \<open>m3\<close> are fetched
  and pass the filter, and the downstream endpoint answers 503: the delivery of \<open>m1\<close>
  raises, \<open>m3\<close> is never handed over, and the cursor stays 40.
\<close>

theorem fetch_skip_containment_counterexample:
  "messagesGet unansweredRuntime 3 mailbox (js ''m2'') (js ''token0'') = None
   \<and> fst (fetchNewEmails unansweredRuntime openEnv mailbox (js ''40'')
             (consoleLog (NewNotification mailbox (js ''50'')) (storedWorld (js ''40''))))
       = Inl FetchRejected
   \<and> map fst (exchanges (processNotification unansweredRuntime openEnv notification50 (storedWorld (js ''40''))))
       = [tokenRequest openEnv, HistoryRequest mailbox (js ''40'') (js ''token0''),
          MessageRequest mailbox (js ''m1'') (js ''token0''),
          MessageRequest mailbox (js ''m2'') (js ''token0'')]
   \<and> delivered (processNotification unansweredRuntime openEnv notification50 (storedWorld (js ''40''))) = []
   \<and> GMAIL_STATE (processNotification unansweredRuntime openEnv notification50 (storedWorld (js ''40'')))
        (cursorKey mailbox) = Some (js ''40'')
   \<and> \<not> ok (the (messagesGet lossyDownRuntime 3 mailbox (js ''m2'') (js ''token0'')))
   \<and> fst (fetchNewEmails lossyDownRuntime openEnv mailbox (js ''40'')
             (consoleLog (NewNotification mailbox (js ''50'')) (storedWorld (js ''40''))))
       = Inr [mailOf (js ''m1''), mailOf (js ''m3'')]
   \<and> isAllowedSender lossyDownRuntime (from' (mailOf (js ''m1''))) (ALLOWED_SENDERS openEnv)
   \<and> isAllowedSender lossyDownRuntime (from' (mailOf (js ''m3''))) (ALLOWED_SENDERS openEnv)
   \<and> delivered (processNotification lossyDownRuntime openEnv notification50 (storedWorld (js ''40''))) = []
   \<and> hookAttempts (processNotification lossyDownRuntime openEnv notification50 (storedWorld (js ''40'')))
       = [transformToOpenClaw (mailOf (js ''m1''))]
   \<and> GMAIL_STATE (processNotification lossyDownRuntime openEnv notification50 (storedWorld (js ''40'')))
        (cursorKey mailbox) = Some (js ''40'')
   \<and> GMAIL_STATE (processNotification lossyDownRuntime openEnv notification50 (storedWorld (js ''40'')))
        (cursorKey mailbox) \<noteq> Some (historyId notification50)"
  by code_simp

text \<open>
  C10. Missing raw content. Let the request for the identifier at position \<open>j\<close> be
  answered with a success status and a message record without raw content (absent or
  empty). Then the result of the fetch loop is the same as when that request is answered
  with any failure status instead. When no request leaves the loop with an error, the
  loop omits that message: it returns what the answers give for the identifiers before
  \<open>j\<close> followed by what they give for the ones after \<open>j\<close>, so the result is shorter than the
  identifier list; the omission is logged; every identifier is still requested; and
  \<open>fetchNewEmails\<close> returns this list and raises no error.
\<close>

theorem missing_raw_skip:
  assumes "j < length mids"
    and "messagesGet rt (length (exchanges w) + j) addr (mids ! j) tok = Some r"
    and "ok r" and "bodyJson r = Some msg" and "\<not> truthy (raw msg)"
  shows "(\<not> (200 \<le> st \<and> st \<le> 299) \<longrightarrow>
            fst (fetchMessages
                   (rt\<lparr>messagesGet := (\<lambda>i a m t. if i = length (exchanges w) + j
                                                  then map_option (\<lambda>x. x\<lparr>status := st\<rparr>) (messagesGet rt i a m t)
                                                  else messagesGet rt i a m t)\<rparr>) addr tok mids w)
              = fst (fetchMessages rt addr tok mids w))
       \<and> (answered rt addr tok (length (exchanges w)) mids \<longrightarrow>
            fst (fetchMessages rt addr tok mids w)
              = Inr (fetched rt addr tok (length (exchanges w)) (take j mids)
                     @ fetched rt addr tok (length (exchanges w) + Suc j) (drop (Suc j) mids))
          \<and> length (fetched rt addr tok (length (exchanges w)) (take j mids)
                     @ fetched rt addr tok (length (exchanges w) + Suc j) (drop (Suc j) mids)) < length mids
          \<and> NoRawData (mids ! j) \<in> set (console (snd (fetchMessages rt addr tok mids w)))
          \<and> map fst (exchanges (snd (fetchMessages rt addr tok mids w)))
              = map fst (exchanges w) @ map (\<lambda>mid. MessageRequest addr mid tok) mids
          \<and> (queryHistory rt env addr c w0 = (Inr (tok, feed), w) \<and> mids = collectMessageIds feed \<longrightarrow>
               fst (fetchNewEmails rt env addr c w0)
                 = Inr (fetched rt addr tok (length (exchanges w)) (take j mids)
                        @ fetched rt addr tok (length (exchanges w) + Suc j) (drop (Suc j) mids))))"
proof -
  let ?k = "length (exchanges w)"
  let ?rt2 = "rt\<lparr>messagesGet := (\<lambda>i a m t. if i = ?k + j
                                             then map_option (\<lambda>x. x\<lparr>status := st\<rparr>) (messagesGet rt i a m t)
                                             else messagesGet rt i a m t)\<rparr>"
  let ?rest = "fetched rt addr tok ?k (take j mids) @ fetched rt addr tok (?k + Suc j) (drop (Suc j) mids)"
  note nr = stepMails_noraw[OF assms(2,3,4,5)]
  from nr have nk: "stepMails rt addr tok (?k + j) (mids ! j) = []" by simp
  note sk = fetched_skip[OF assms(1) nk]
  have same: "fst (fetchMessages ?rt2 addr tok mids w) = fst (fetchMessages rt addr tok mids w)"
    if st: "\<not> (200 \<le> st \<and> st \<le> 299)"
  proof (rule fetchMessages_cong[OF refl], intro allI impI)
    fix i assume "i < length mids"
    show "stepError ?rt2 addr tok (?k + i) (mids ! i) = stepError rt addr tok (?k + i) (mids ! i)
        \<and> stepMails ?rt2 addr tok (?k + i) (mids ! i) = stepMails rt addr tok (?k + i) (mids ! i)"
    proof (cases "i = j")
      case True
      have "messagesGet ?rt2 (?k + j) addr (mids ! j) tok = Some (r\<lparr>status := st\<rparr>)"
        using assms(2) by simp
      moreover have "\<not> ok (r\<lparr>status := st\<rparr>)" using st by (simp add: ok_def)
      ultimately have "stepMails ?rt2 addr tok (?k + j) (mids ! j) = []
                     \<and> stepError ?rt2 addr tok (?k + j) (mids ! j) = None"
        by (rule stepMails_failure)
      with nr True show ?thesis by simp
    next
      case False
      have "parseMessage ?rt2 = parseMessage rt"
        by (intro ext) (simp add: parseMessage_def Let_def split: option.split)
      moreover have "messagesGet ?rt2 (?k + i) addr (mids ! i) tok = messagesGet rt (?k + i) addr (mids ! i) tok"
        using False by simp
      ultimately show ?thesis by (rule step_cong[rotated])
    qed
  qed
  have rest: "fst (fetchMessages rt addr tok mids w) = Inr ?rest
          \<and> length ?rest < length mids
          \<and> NoRawData (mids ! j) \<in> set (console (snd (fetchMessages rt addr tok mids w)))
          \<and> map fst (exchanges (snd (fetchMessages rt addr tok mids w)))
              = map fst (exchanges w) @ map (\<lambda>mid. MessageRequest addr mid tok) mids
          \<and> (queryHistory rt env addr c w0 = (Inr (tok, feed), w) \<and> mids = collectMessageIds feed \<longrightarrow>
               fst (fetchNewEmails rt env addr c w0) = Inr ?rest)"
    if an: "answered rt addr tok ?k mids"
  proof -
    have res: "fst (fetchNewEmails rt env addr c w0) = Inr ?rest"
      if h: "queryHistory rt env addr c w0 = (Inr (tok, feed), w)" "mids = collectMessageIds feed"
      using fetchNewEmails_resolved[OF h(1)] an sk h(2) by simp
    have rq: "map fst (exchanges (snd (fetchMessages rt addr tok mids w)))
           = map fst (exchanges w) @ map (\<lambda>mid. MessageRequest addr mid tok) mids"
      using fetchMessages_requests[of rt addr tok mids w] requested_answered[OF an] by simp
    have res': "queryHistory rt env addr c w0 = (Inr (tok, feed), w) \<and> mids = collectMessageIds feed \<longrightarrow>
               fst (fetchNewEmails rt env addr c w0) = Inr ?rest"
      using res by blast
    from rq fetchMessages_answered[OF an, unfolded sk] fetched_skip_length[OF assms(1) nk, unfolded sk]
      fetchMessages_logs_noraw[OF an assms] res'
    show ?thesis by (intro conjI)
  qed
  from same rest show ?thesis by blast
qed

theorem missing_raw_skip_witness:
  "(1::nat) < length [js ''m1'', js ''m2'', js ''m3'']
   \<and> length (exchanges (snd (queryHistory rawlessRuntime openEnv mailbox (js ''40'') emptyWorld))) = 2
   \<and> ok (the (messagesGet rawlessRuntime 3 mailbox ([js ''m1'', js ''m2'', js ''m3''] ! 1) (js ''token0'')))
   \<and> \<not> truthy (raw (the (bodyJson (the (messagesGet rawlessRuntime 3 mailbox
                         ([js ''m1'', js ''m2'', js ''m3''] ! 1) (js ''token0''))))))
   \<and> answered rawlessRuntime mailbox (js ''token0'') 2 [js ''m1'', js ''m2'', js ''m3'']
   \<and> fst (fetchNewEmails rawlessRuntime openEnv mailbox (js ''40'') emptyWorld)
       = Inr [mailOf (js ''m1''), mailOf (js ''m3'')]
   \<and> NoRawData (js ''m2'') \<in> set (console (snd (fetchMessages rawlessRuntime mailbox (js ''token0'')
         [js ''m1'', js ''m2'', js ''m3'']
         (snd (queryHistory rawlessRuntime openEnv mailbox (js ''40'') emptyWorld)))))
   \<and> fst (fetchMessages
            (rawlessRuntime\<lparr>messagesGet := (\<lambda>i a m t. if i = 3
                  then map_option (\<lambda>x. x\<lparr>status := 404\<rparr>) (messagesGet rawlessRuntime i a m t)
                  else messagesGet rawlessRuntime i a m t)\<rparr>)
            mailbox (js ''token0'') [js ''m1'', js ''m2'', js ''m3'']
            (snd (queryHistory rawlessRuntime openEnv mailbox (js ''40'') emptyWorld)))
       = Inr [mailOf (js ''m1''), mailOf (js ''m3'')]"
proof -
  let ?q = "queryHistory rawlessRuntime openEnv mailbox (js ''40'') emptyWorld"
  let ?mids = "[js ''m1'', js ''m2'', js ''m3'']"
  let ?msg = "\<lparr>fetched_id = js ''m2'', raw = None, fetched_threadId = js ''m2'',
               labelIds = None, providerSnippet = None\<rparr>"
  let ?r = "\<lparr>status = 200, bodyText = [], bodyJson = Some ?msg\<rparr>"
  have len: "length (exchanges (snd ?q)) = 2" by code_simp
  have j: "(1::nat) < length ?mids" by simp
  have g: "messagesGet rawlessRuntime (length (exchanges (snd ?q)) + 1) mailbox (?mids ! 1) (js ''token0'') = Some ?r"
    unfolding len by code_simp
  have okr: "ok ?r" by (simp add: ok_def)
  have bj: "bodyJson ?r = Some ?msg" by simp
  have nr: "\<not> truthy (raw ?msg)" by simp
  have an: "answered rawlessRuntime mailbox (js ''token0'') (length (exchanges (snd ?q))) ?mids"
    unfolding len by code_simp
  have "fst ?q = Inr (js ''token0'', feedOf ?mids)" by code_simp
  then have h3: "?q = (Inr (js ''token0'', feedOf ?mids), snd ?q)" by (simp add: prod_eq_iff)
  have h5: "?mids = collectMessageIds (feedOf ?mids)" by code_simp
  have ev: "fetched rawlessRuntime mailbox (js ''token0'') (length (exchanges (snd ?q))) (take 1 ?mids)
            @ fetched rawlessRuntime mailbox (js ''token0'') (length (exchanges (snd ?q)) + Suc 1) (drop (Suc 1) ?mids)
            = [mailOf (js ''m1''), mailOf (js ''m3'')]"
    unfolding len by code_simp
  have g3: "ok (the (messagesGet rawlessRuntime 3 mailbox (?mids ! 1) (js ''token0'')))"
    "\<not> truthy (raw (the (bodyJson (the (messagesGet rawlessRuntime 3 mailbox (?mids ! 1) (js ''token0''))))))"
    by code_simp+
  have st: "\<not> (200 \<le> (404::nat) \<and> (404::nat) \<le> 299)" by simp
  from missing_raw_skip[OF j g okr bj nr, of 404 openEnv "js ''40''" emptyWorld "feedOf ?mids"] h3 h5 an st
  have "fst (fetchNewEmails rawlessRuntime openEnv mailbox (js ''40'') emptyWorld)
          = Inr (fetched rawlessRuntime mailbox (js ''token0'') (length (exchanges (snd ?q))) (take 1 ?mids)
            @ fetched rawlessRuntime mailbox (js ''token0'') (length (exchanges (snd ?q)) + Suc 1) (drop (Suc 1) ?mids))"
    and "NoRawData (?mids ! 1) \<in> set (console (snd (fetchMessages rawlessRuntime mailbox (js ''token0'') ?mids (snd ?q))))"
    and "fst (fetchMessages
            (rawlessRuntime\<lparr>messagesGet := (\<lambda>i a m t. if i = length (exchanges (snd ?q)) + 1
                  then map_option (\<lambda>x. x\<lparr>status := 404\<rparr>) (messagesGet rawlessRuntime i a m t)
                  else messagesGet rawlessRuntime i a m t)\<rparr>)
            mailbox (js ''token0'') ?mids (snd ?q))
          = Inr (fetched rawlessRuntime mailbox (js ''token0'') (length (exchanges (snd ?q))) (take 1 ?mids)
            @ fetched rawlessRuntime mailbox (js ''token0'') (length (exchanges (snd ?q)) + Suc 1) (drop (Suc 1) ?mids))"
    by simp_all
  with j len g3 an[unfolded len] ev show ?thesis by simp
qed

section \<open>The snippet\<close>

lemma codePoints_length: "length (codePoints s) \<le> length s"
  by (induction s rule: codePoints.induct) auto

lemma parseMessage_snippet:
  "parseMessage rt msg rawData = Inr e \<Longrightarrow> snippet e = take 200 (body e)"
  by (auto simp: parseMessage_def Let_def split: option.splits)

lemma parseMessage_providerSnippet:
  "parseMessage rt (msg\<lparr>providerSnippet := s\<rparr>) rawData = parseMessage rt msg rawData"
  by (simp add: parseMessage_def Let_def split: option.split)

lemma stepMails_snippet:
  "e \<in> set (stepMails rt addr tok k mid) \<Longrightarrow> snippet e = take 200 (body e)"
proof -
  assume e: "e \<in> set (stepMails rt addr tok k mid)"
  then obtain msg d where "parseMessage rt msg d = Inr e"
    by (cases "messagesGet rt k addr mid tok")
       (auto simp: stepMails_def split: option.splits if_splits sum.splits)
  then show ?thesis by (rule parseMessage_snippet)
qed

lemma fetched_snippet:
  "e \<in> set (fetched rt addr tok k mids) \<Longrightarrow> snippet e = take 200 (body e)"
  by (induction mids arbitrary: k) (auto simp: stepMails_snippet)

text \<open>
  C8, as amended. Snippet truncation. For every message that \<open>fetchNewEmails\<close> returns,
  the snippet is the first 200 UTF-16 code units of the body: at most 200 code units, hence
  at most 200 code points, a prefix of the body as a sequence of code units, and empty when
  the body is empty. The snippet sent by the provider plays no part: the record built from a
  fetched message is the same whatever that snippet is.
\<close>

theorem snippet_truncation:
  assumes "fetchNewEmails rt env addr start w = (Inr emails, w')" and "e \<in> set emails"
  shows "snippet e = take 200 (body e)
       \<and> length (snippet e) \<le> 200
       \<and> length (codePoints (snippet e)) \<le> 200
       \<and> prefix (snippet e) (body e)
       \<and> (body e = [] \<longrightarrow> snippet e = [])
       \<and> parseMessage rt (msg\<lparr>providerSnippet := s\<rparr>) rawData = parseMessage rt msg rawData"
proof -
  from fetchNewEmails_Inr[OF assms(1)]
  have "\<exists>tok k mids. emails = fetched rt addr tok k mids" .
  with assms(2) have sn: "snippet e = take 200 (body e)"
    using fetched_snippet by blast
  have "length (codePoints (snippet e)) \<le> length (snippet e)" by (rule codePoints_length)
  with sn show ?thesis
    by (simp add: take_is_prefix parseMessage_providerSnippet)
qed

theorem snippet_truncation_witness:
  "fst (fetchNewEmails healthyRuntime openEnv mailbox (js ''40'') emptyWorld)
     = Inr [mailOf (js ''m1''), mailOf (js ''m2''), mailOf (js ''m3'')]
   \<and> mailOf (js ''m2'') \<in> set [mailOf (js ''m1''), mailOf (js ''m2''), mailOf (js ''m3'')]
   \<and> snippet (mailOf (js ''m2'')) = take 200 (body (mailOf (js ''m2'')))
   \<and> prefix (snippet (mailOf (js ''m2''))) (body (mailOf (js ''m2'')))
   \<and> length (codePoints (snippet (mailOf (js ''m2'')))) \<le> 200"
proof -
  let ?f = "fetchNewEmails healthyRuntime openEnv mailbox (js ''40'') emptyWorld"
  let ?emails = "[mailOf (js ''m1''), mailOf (js ''m2''), mailOf (js ''m3'')]"
  have f: "fst ?f = Inr ?emails" by code_simp
  then have h1: "?f = (Inr ?emails, snd ?f)" by (simp add: prod_eq_iff)
  have h2: "mailOf (js ''m2'') \<in> set ?emails" by simp
  from snippet_truncation[OF h1 h2] have
    "snippet (mailOf (js ''m2'')) = take 200 (body (mailOf (js ''m2'')))"
    "prefix (snippet (mailOf (js ''m2''))) (body (mailOf (js ''m2'')))"
    "length (codePoints (snippet (mailOf (js ''m2'')))) \<le> 200"
    by blast+
  with f h2 show ?thesis by blast
qed

text \<open>
  C8 as stated fails. The body is 199 letters followed by a character encoded by a
  surrogate pair, 200 code points in all. Truncation at 200 code points keeps the whole body;
  the snippet of the source is the 199 letters followed by the high surrogate alone, a pair
  cut in two.
\<close>

theorem snippet_truncation_counterexample:
  "fst (fetchNewEmails astralRuntime openEnv mailbox (js ''40'') emptyWorld)
     = Inr [(mailOf (js ''m1''))\<lparr>body := astralBody, snippet := replicate 199 0x0061 @ [0xD83D]\<rparr>]
   \<and> length (codePoints astralBody) = 200
   \<and> takeCodePoints 200 astralBody = astralBody
   \<and> replicate 199 0x0061 @ [0xD83D] \<noteq> takeCodePoints 200 astralBody
   \<and> last (codePoints astralBody) = [0xD83D, 0xDE00]
   \<and> last (codePoints (replicate 199 0x0061 @ [0xD83D])) = [0xD83D]"
  by code_simp

section \<open>The sender filter\<close>



lemma angleMatch_Nil [simp]: "\<not> angleMatch [] pre g"
  by (simp add: angleMatch_def)
















end
